theory Spec2Isabelle
  imports Complex_Main "HOL-Library.Word"
begin

section \<open>Strings of the page script\<close>

text \<open>
  A JavaScript string is a sequence of UTF-16 code units: \<open>s.length\<close> counts code units
  and a regular expression without the \<open>u\<close> flag reads one code unit at a time. The
  literals of the script are written with \<open>js\<close>; a code unit outside ASCII is written
  by its number.
\<close>

type_synonym jschar = "16 word"
type_synonym jsstring = "jschar list"

definition js :: "string \<Rightarrow> jsstring" where
  "js s = map of_char s"

text \<open>
  The code units that ECMAScript counts as white space or line terminator. The same set is
  matched by \<open>\s\<close> in a regular expression and stripped by \<open>String.prototype.trim\<close>:
  TAB, LF, VT, FF, CR, SPACE, NBSP, U+1680, U+2000 to U+200A, U+2028, U+2029, U+202F,
  U+205F, U+3000 and U+FEFF.
\<close>

definition is_js_whitespace :: "jschar \<Rightarrow> bool" where
  "is_js_whitespace c \<longleftrightarrow>
     c \<in> {0x09, 0x0A, 0x0B, 0x0C, 0x0D, 0x20, 0xA0, 0x1680, 0x2028, 0x2029, 0x202F, 0x205F,
          0x3000, 0xFEFF} \<or> (0x2000 \<le> c \<and> c \<le> 0x200A)"

definition trim :: "jsstring \<Rightarrow> jsstring" where
  "trim s = rev (dropWhile is_js_whitespace (rev (dropWhile is_js_whitespace s)))"

section \<open>Regular expressions\<close>

text \<open>
  The two patterns of the script use character classes, literal characters, sequencing
  and \<open>+\<close>, anchored at both ends (\<open>^ ... $\<close>, no flags), so \<open>pattern.test(s)\<close> holds
  exactly when the whole of \<open>s\<close> belongs to the language of the pattern. \<open>matches\<close> is that
  language; \<open>regex_test\<close> decides it by derivatives.
\<close>

datatype re = Never | Empty | Class "jschar \<Rightarrow> bool" | Or re re | Then re re | Many re

definition OneOrMore :: "re \<Rightarrow> re" where
  "OneOrMore r = Then r (Many r)"

inductive matches :: "re \<Rightarrow> jsstring \<Rightarrow> bool" where
  m_Empty: "matches Empty []"
| m_Class: "P c \<Longrightarrow> matches (Class P) [c]"
| m_OrL: "matches r w \<Longrightarrow> matches (Or r s) w"
| m_OrR: "matches s w \<Longrightarrow> matches (Or r s) w"
| m_Then: "matches r u \<Longrightarrow> matches s v \<Longrightarrow> matches (Then r s) (u @ v)"
| m_Many0: "matches (Many r) []"
| m_ManyS: "matches r u \<Longrightarrow> matches (Many r) v \<Longrightarrow> matches (Many r) (u @ v)"

fun nullable :: "re \<Rightarrow> bool" where
  "nullable Never = False"
| "nullable Empty = True"
| "nullable (Class P) = False"
| "nullable (Or r s) = (nullable r \<or> nullable s)"
| "nullable (Then r s) = (nullable r \<and> nullable s)"
| "nullable (Many r) = True"

fun deriv :: "jschar \<Rightarrow> re \<Rightarrow> re" where
  "deriv c Never = Never"
| "deriv c Empty = Never"
| "deriv c (Class P) = (if P c then Empty else Never)"
| "deriv c (Or r s) = Or (deriv c r) (deriv c s)"
| "deriv c (Then r s) =
     (if nullable r then Or (Then (deriv c r) s) (deriv c s) else Then (deriv c r) s)"
| "deriv c (Many r) = Then (deriv c r) (Many r)"

fun regex_test :: "re \<Rightarrow> jsstring \<Rightarrow> bool" where
  "regex_test r [] = nullable r"
| "regex_test r (c # cs) = regex_test (deriv c r) cs"

section \<open>Form controller\<close>

text \<open>
  The object \<open>data\<close> built by \<open>handleFormSubmit\<close> and read by \<open>validateForm\<close>.
\<close>

record contact_data =
  nombre :: jsstring
  email :: jsstring
  mensaje :: jsstring

text \<open>
  The four messages \<open>validateForm\<close> can push, in the order of their \<open>push\<close> calls in the
  source; \<open>message_text\<close> gives the literal of each.
\<close>

datatype form_error = NombreCorto | NombreLetras | EmailInvalido | MensajeCorto

fun message_text :: "form_error \<Rightarrow> jsstring" where
  "message_text NombreCorto = js ''El nombre debe tener al menos 2 caracteres''"
| "message_text NombreLetras = js ''El nombre solo puede contener letras y espacios''"
| "message_text EmailInvalido = js ''Por favor ingresa un email v'' @ [0xE1] @ js ''lido''"
| "message_text MensajeCorto = js ''El mensaje debe tener al menos 10 caracteres''"

text \<open>
  The class \<^verbatim>\<open>[a-zA-Z....\s]\<close> of the name pattern: the ranges \<open>a-z\<close> and \<open>A-Z\<close>, the
  twelve letters U+00E1, U+00E9, U+00ED, U+00F3, U+00FA (lower-case vowels with acute),
  U+00C1, U+00C9, U+00CD, U+00D3, U+00DA (upper-case vowels with acute), U+00F1 and
  U+00D1 (n with tilde), and \<open>\s\<close>.
\<close>

definition nombre_class :: "jschar \<Rightarrow> bool" where
  "nombre_class c \<longleftrightarrow>
     (0x61 \<le> c \<and> c \<le> 0x7A) \<or> (0x41 \<le> c \<and> c \<le> 0x5A) \<or>
     c \<in> {0xE1, 0xE9, 0xED, 0xF3, 0xFA, 0xC1, 0xC9, 0xCD, 0xD3, 0xDA, 0xF1, 0xD1} \<or>
     is_js_whitespace c"

definition nombreRegex :: re where
  "nombreRegex = OneOrMore (Class nombre_class)"

text \<open>
  \<^verbatim>\<open>const emailRegex = /^[^\s@]+@[^\s@]+\.[^\s@]+$/;\<close>
  with \<open>@\<close> the code unit 0x40 and \<open>.\<close> the code unit 0x2E.
\<close>

definition email_class :: "jschar \<Rightarrow> bool" where
  "email_class c \<longleftrightarrow> \<not> (is_js_whitespace c \<or> c = 0x40)"

definition emailRegex :: re where
  "emailRegex =
     Then (OneOrMore (Class email_class))
       (Then (Class (\<lambda>c. c = 0x40))
         (Then (OneOrMore (Class email_class))
           (Then (Class (\<lambda>c. c = 0x2E)) (OneOrMore (Class email_class)))))"

text \<open>
  \<^verbatim>\<open>
  function validateForm(data) {
      const errors = [];
      if (!data.nombre || data.nombre.length < 2) {
          errors.push('El nombre debe tener al menos 2 caracteres');
      } else if (!/^[a-zA-Z....\s]+$/.test(data.nombre)) {
          errors.push('El nombre solo puede contener letras y espacios');
      }
      const emailRegex = /^[^\s@]+@[^\s@]+\.[^\s@]+$/;
      if (!data.email || !emailRegex.test(data.email)) {
          errors.push('Por favor ingresa un email valido');
      }
      if (!data.mensaje || data.mensaje.length < 10) {
          errors.push('El mensaje debe tener al menos 10 caracteres');
      }
      return errors;
  }
  \<close>
  For a string \<open>s\<close>, \<open>!s\<close> holds exactly when \<open>s\<close> is empty.
\<close>

definition validateForm :: "contact_data \<Rightarrow> form_error list" where
  "validateForm data =
     (let errors = [];
          errors = (if nombre data = [] \<or> length (nombre data) < 2
                    then errors @ [NombreCorto]
                    else if \<not> regex_test nombreRegex (nombre data)
                    then errors @ [NombreLetras]
                    else errors);
          errors = (if email data = [] \<or> \<not> regex_test emailRegex (email data)
                    then errors @ [EmailInvalido]
                    else errors);
          errors = (if mensaje data = [] \<or> length (mensaje data) < 10
                    then errors @ [MensajeCorto]
                    else errors)
      in errors)"

text \<open>
  What the form controller reads and writes: the values of the three named controls (as
  \<open>FormData.get\<close> returns them) and the values \<open>reset()\<close> restores, the \<open>.form-error\<close>
  blocks inside the form (topmost first, each with its list items), the number of
  \<open>.field-error\<close> nodes and of \<open>.form-success\<close> banners, the submit button, the
  \<open>setTimeout\<close> calls made so far (delay in ms and callback, oldest first) and the
  console lines of the submission log.
\<close>

datatype timer_callback =
    SubmissionDone contact_data jsstring
  | RemoveSuccess

record form_page =
  inputs :: contact_data
  defaults :: contact_data
  formErrors :: "form_error list list"
  fieldErrors :: nat
  successBanners :: nat
  submitText :: jsstring
  submitDisabled :: bool
  scheduled :: "(nat \<times> timer_callback) list"
  console :: "(jsstring \<times> jsstring) list"

text \<open>
  \<open>showFormErrors\<close> removes every \<open>.form-error\<close> block of the form and inserts one new
  block, with one list item per message, before the first child of the form.
\<close>

definition showFormErrors :: "form_error list \<Rightarrow> form_page \<Rightarrow> form_page" where
  "showFormErrors errors p = p\<lparr>formErrors := [errors]\<rparr>"

text \<open>
  \<open>simulateFormSubmission\<close> relabels and disables the button and schedules the rest
  1500 ms later; the callback closes over \<open>data\<close> and the label read before the change.
\<close>

definition simulateFormSubmission :: "contact_data \<Rightarrow> form_page \<Rightarrow> form_page" where
  "simulateFormSubmission data p =
     (let originalText = submitText p in
      p\<lparr>submitText := js ''Enviando...'',
        submitDisabled := True,
        scheduled := scheduled p @ [(1500, SubmissionDone data originalText)]\<rparr>)"

text \<open>
  \<open>showSuccessMessage\<close> inserts a banner and schedules its removal 5000 ms later.
\<close>

definition showSuccessMessage :: "form_page \<Rightarrow> form_page" where
  "showSuccessMessage p =
     p\<lparr>successBanners := successBanners p + 1,
       scheduled := scheduled p @ [(5000, RemoveSuccess)]\<rparr>"

text \<open>
  The body of a timer callback when it fires: the submission callback logs, shows the
  banner, resets the form, restores the button and removes every \<open>.form-error\<close> and
  \<open>.field-error\<close> node; the other removes its banner.
\<close>

fun fire :: "timer_callback \<Rightarrow> form_page \<Rightarrow> form_page" where
  "fire (SubmissionDone data originalText) p =
     (let p = p\<lparr>console := console p @ [(nombre data, email data)]\<rparr>;
          p = showSuccessMessage p;
          p = p\<lparr>inputs := defaults p\<rparr>;
          p = p\<lparr>submitText := originalText, submitDisabled := False\<rparr>
      in p\<lparr>formErrors := [], fieldErrors := 0\<rparr>)"
| "fire RemoveSuccess p = p\<lparr>successBanners := successBanners p - 1\<rparr>"

text \<open>Timer callbacks firing one after the other.\<close>

definition fire_all :: "timer_callback list \<Rightarrow> form_page \<Rightarrow> form_page" where
  "fire_all callbacks p = foldl (\<lambda>p callback. fire callback p) p callbacks"

text \<open>
  \<^verbatim>\<open>
  function handleFormSubmit(e) {
      e.preventDefault();
      const formData = new FormData(DOM.contactForm);
      const data = {
          nombre: formData.get('nombre').trim(),
          email: formData.get('email').trim(),
          mensaje: formData.get('mensaje').trim()
      };
      const errors = validateForm(data);
      if (errors.length > 0) {
          showFormErrors(errors);
          return;
      }
      simulateFormSubmission(data);
  }
  \<close>
\<close>

definition submitted_data :: "form_page \<Rightarrow> contact_data" where
  "submitted_data p =
     \<lparr>nombre = trim (nombre (inputs p)),
      email = trim (email (inputs p)),
      mensaje = trim (mensaje (inputs p))\<rparr>"

definition handleFormSubmit :: "form_page \<Rightarrow> form_page" where
  "handleFormSubmit p =
     (let data = submitted_data p;
          errors = validateForm data
      in if length errors > 0 then showFormErrors errors p
         else simulateFormSubmission data p)"

section \<open>Modal controller\<close>

text \<open>
  One entry of the table \<open>caseStudies\<close> inside \<open>loadCaseStudyContent\<close> (the field
  \<open>image\<close> of the source is \<open>imageUrl\<close> here).
\<close>

record case_study =
  title :: jsstring
  client :: jsstring
  duration :: jsstring
  role :: jsstring
  objective :: jsstring
  problem :: jsstring
  process :: "jsstring list"
  solution :: jsstring
  results :: "jsstring list"
  imageUrl :: jsstring

definition fintech_rebrand :: case_study where
  \<open>fintech_rebrand = \<lparr>
     title = js ''Rebranding para Startup de Fintech'',
     client = js ''TechFinance Startup'',
     duration = js ''3 meses'',
     role = js ''Lead Designer & Brand Strategist'',
     objective = js ''Reposicionar la marca para aumentar la confianza del usuario y triplicar las conversiones'',
     problem = js ''La startup ten'' @ [0xED] @ js ''a una identidad visual inconsistente que no transmit'' @ [0xED] @ js ''a confianza en el sector financiero, resultando en bajas tasas de conversi'' @ [0xF3] @ js ''n y poca diferenciaci'' @ [0xF3] @ js ''n en el mercado.'',
     process =
       [js ''An'' @ [0xE1] @ js ''lisis de mercado y competencia'',
        js ''Research de usuarios y pain points'',
        js ''Desarrollo de estrategia de marca'',
        js ''Creaci'' @ [0xF3] @ js ''n de identidad visual completa'',
        js ''Dise'' @ [0xF1] @ js ''o de sistema de dise'' @ [0xF1] @ js ''o'',
        js ''Implementaci'' @ [0xF3] @ js ''n en todos los touchpoints''],
     solution = js ''Desarroll'' @ [0xE9] @ js '' una identidad visual moderna y confiable que comunica estabilidad financiera a trav'' @ [0xE9] @ js ''s de colores corporativos, tipograf'' @ [0xED] @ js ''a profesional y elementos gr'' @ [0xE1] @ js ''ficos que transmiten transparencia y seguridad.'',
     results =
       [js ''300% incremento en conversiones'',
        js ''85% mejora en reconocimiento de marca'',
        js ''40% reducci'' @ [0xF3] @ js ''n en costo de adquisici'' @ [0xF3] @ js ''n'',
        js ''95% satisfacci'' @ [0xF3] @ js ''n del cliente''],
     imageUrl = js ''https://picsum.photos/600/400?random=1''\<rparr>\<close>

definition ecommerce_app :: case_study where
  \<open>ecommerce_app = \<lparr>
     title = js ''App M'' @ [0xF3] @ js ''vil E-commerce'',
     client = js ''RetailPlus'',
     duration = js ''4 meses'',
     role = js ''UX/UI Designer'',
     objective = js ''Redise'' @ [0xF1] @ js ''ar la experiencia de compra m'' @ [0xF3] @ js ''vil para reducir el abandono del carrito y aumentar las ventas'',
     problem = js ''La app m'' @ [0xF3] @ js ''vil ten'' @ [0xED] @ js ''a una tasa de abandono del carrito del 70% debido a una experiencia de usuario confusa y procesos de compra complejos.'',
     process =
       [js ''Audit de UX existente'',
        js ''User research y entrevistas'',
        js ''Mapeo de customer journey'',
        js ''Wireframing y prototipado'',
        js ''Testing de usabilidad'',
        js ''Dise'' @ [0xF1] @ js ''o de interfaz final''],
     solution = js ''Cre'' @ [0xE9] @ js '' una experiencia de compra simplificada con checkout en un solo paso, navegaci'' @ [0xF3] @ js ''n intuitiva y elementos visuales que gu'' @ [0xED] @ js ''an al usuario hacia la conversi'' @ [0xF3] @ js ''n.'',
     results =
       [js ''35% reducci'' @ [0xF3] @ js ''n en abandono del carrito'',
        js ''50% incremento en ventas m'' @ [0xF3] @ js ''viles'',
        js ''4.8/5 rating en app stores'',
        js ''60% mejora en tiempo de checkout''],
     imageUrl = js ''https://picsum.photos/600/400?random=2''\<rparr>\<close>

definition corporate_campaign :: case_study where
  \<open>corporate_campaign = \<lparr>
     title = js ''Campa'' @ [0xF1] @ js ''a Corporativa Multichannel'',
     client = js ''GlobalCorp'',
     duration = js ''2 meses'',
     role = js ''Creative Director'',
     objective = js ''Unificar la comunicaci'' @ [0xF3] @ js ''n de marca en todos los touchpoints para mejorar el reconocimiento y la coherencia'',
     problem = js ''La empresa ten'' @ [0xED] @ js ''a m'' @ [0xFA] @ js ''ltiples canales de comunicaci'' @ [0xF3] @ js ''n con mensajes inconsistentes y dise'' @ [0xF1] @ js ''o fragmentado, afectando la percepci'' @ [0xF3] @ js ''n de marca.'',
     process =
       [js ''Audit de marca existente'',
        js ''Desarrollo de guidelines'',
        js ''Creaci'' @ [0xF3] @ js ''n de assets multichannel'',
        js ''Dise'' @ [0xF1] @ js ''o de templates'',
        js ''Capacitaci'' @ [0xF3] @ js ''n de equipos'',
        js ''Implementaci'' @ [0xF3] @ js ''n coordinada''],
     solution = js ''Desarroll'' @ [0xE9] @ js '' un sistema de comunicaci'' @ [0xF3] @ js ''n unificado con guidelines claras, templates reutilizables y una identidad visual consistente en todos los canales.'',
     results =
       [js ''90% consistencia en comunicaci'' @ [0xF3] @ js ''n'',
        js ''45% mejora en reconocimiento de marca'',
        js ''30% reducci'' @ [0xF3] @ js ''n en tiempo de producci'' @ [0xF3] @ js ''n'',
        js ''100% adopci'' @ [0xF3] @ js ''n por parte de equipos''],
     imageUrl = js ''https://picsum.photos/600/400?random=3''\<rparr>\<close>

definition saas_dashboard :: case_study where
  \<open>saas_dashboard = \<lparr>
     title = js ''Dashboard SaaS B2B'',
     client = js ''DataAnalytics Pro'',
     duration = js ''5 meses'',
     role = js ''Product Designer'',
     objective = js ''Redise'' @ [0xF1] @ js ''ar la interfaz compleja para mejorar la usabilidad y reducir el tiempo de onboarding'',
     problem = js ''El dashboard ten'' @ [0xED] @ js ''a una curva de aprendizaje muy alta, con usuarios abandonando la plataforma en las primeras semanas debido a la complejidad de la interfaz.'',
     process =
       [js ''An'' @ [0xE1] @ js ''lisis de datos de uso'',
        js ''User interviews y surveys'',
        js ''Information architecture'',
        js ''Wireframing y prototipado'',
        js ''Usability testing iterativo'',
        js ''Dise'' @ [0xF1] @ js ''o de sistema de componentes''],
     solution = js ''Simplifiqu'' @ [0xE9] @ js '' la interfaz agrupando funcionalidades relacionadas, cre'' @ [0xE9] @ js '' un sistema de navegaci'' @ [0xF3] @ js ''n intuitivo y desarroll'' @ [0xE9] @ js '' un onboarding progresivo.'',
     results =
       [js ''50% reducci'' @ [0xF3] @ js ''n en tiempo de onboarding'',
        js ''70% mejora en task completion rate'',
        js ''4.5/5 satisfacci'' @ [0xF3] @ js ''n del usuario'',
        js ''40% reducci'' @ [0xF3] @ js ''n en tickets de soporte''],
     imageUrl = js ''https://picsum.photos/600/400?random=4''\<rparr>\<close>

definition sustainable_packaging :: case_study where
  \<open>sustainable_packaging = \<lparr>
     title = js ''Packaging Sostenible'',
     client = js ''EcoProducts'',
     duration = js ''2 meses'',
     role = js ''Packaging Designer'',
     objective = js ''Crear packaging que comunique valores sostenibles y aumente las ventas en el segmento eco-conscious'',
     problem = js ''El packaging actual no comunicaba los valores sostenibles de la marca, perdiendo oportunidades en el mercado eco-friendly en crecimiento.'',
     process =
       [js ''Research de mercado eco-friendly'',
        js ''An'' @ [0xE1] @ js ''lisis de materiales sostenibles'',
        js ''Desarrollo de conceptos visuales'',
        js ''Prototipado y testing'',
        js ''Optimizaci'' @ [0xF3] @ js ''n para producci'' @ [0xF3] @ js ''n'',
        js ''Implementaci'' @ [0xF3] @ js ''n en l'' @ [0xED] @ js ''nea de productos''],
     solution = js ''Dise'' @ [0xF1] @ [0xE9] @ js '' un sistema de packaging que combina materiales sostenibles con una identidad visual que comunica claramente los valores ecol'' @ [0xF3] @ js ''gicos de la marca.'',
     results =
       [js ''60% incremento en ventas eco-segment'',
        js ''85% mejora en percepci'' @ [0xF3] @ js ''n sostenible'',
        js ''30% reducci'' @ [0xF3] @ js ''n en costos de packaging'',
        js ''Premio de dise'' @ [0xF1] @ js ''o sostenible 2024''],
     imageUrl = js ''https://picsum.photos/600/400?random=5''\<rparr>\<close>

definition brand_identity :: case_study where
  \<open>brand_identity = \<lparr>
     title = js ''Identidad de Marca Completa'',
     client = js ''InnovateTech'',
     duration = js ''3 meses'',
     role = js ''Brand Designer'',
     objective = js ''Desarrollar identidad visual desde cero para posicionar la empresa como l'' @ [0xED] @ js ''der en su sector'',
     problem = js ''La startup necesitaba una identidad visual profesional que comunicara innovaci'' @ [0xF3] @ js ''n y confiabilidad para competir en el mercado tecnol'' @ [0xF3] @ js ''gico.'',
     process =
       [js ''Brand strategy y positioning'',
        js ''Desarrollo de conceptos creativos'',
        js ''Dise'' @ [0xF1] @ js ''o de logo y variaciones'',
        js ''Creaci'' @ [0xF3] @ js ''n de manual de marca'',
        js ''Dise'' @ [0xF1] @ js ''o de aplicaciones'',
        js ''Implementaci'' @ [0xF3] @ js ''n en todos los touchpoints''],
     solution = js ''Cre'' @ [0xE9] @ js '' una identidad visual moderna y escalable que comunica innovaci'' @ [0xF3] @ js ''n tecnol'' @ [0xF3] @ js ''gica a trav'' @ [0xE9] @ js ''s de elementos gr'' @ [0xE1] @ js ''ficos din'' @ [0xE1] @ js ''micos y una paleta de colores distintiva.'',
     results =
       [js ''100% reconocimiento de marca en 6 meses'',
        js ''200% incremento en leads calificados'',
        js ''Premio a mejor identidad corporativa'',
        js ''Expansi'' @ [0xF3] @ js ''n a 3 mercados internacionales''],
     imageUrl = js ''https://picsum.photos/600/400?random=6''\<rparr>\<close>

definition caseStudies :: "(jsstring \<times> case_study) list" where
  "caseStudies =
     [(js ''fintech-rebrand'', fintech_rebrand),
      (js ''ecommerce-app'', ecommerce_app),
      (js ''corporate-campaign'', corporate_campaign),
      (js ''saas-dashboard'', saas_dashboard),
      (js ''sustainable-packaging'', sustainable_packaging),
      (js ''brand-identity'', brand_identity)]"
definition caseStudyHTML :: "case_study \<Rightarrow> jsstring" where
  \<open>caseStudyHTML project = concat
     [js ''\<newline>'',
      js ''        <div class="case-study-header">\<newline>'',
      js ''            <img src="'',
      imageUrl project,
      js ''" alt="'',
      title project,
      js ''" class="case-study-image">\<newline>'',
      js ''            <div class="case-study-meta">\<newline>'',
      js ''                <h1>'',
      title project,
      js ''</h1>\<newline>'',
      js ''                <div class="case-study-info">\<newline>'',
      js ''                    <div class="info-item">\<newline>'',
      js ''                        <strong>Cliente:</strong> '',
      client project,
      js ''\<newline>'',
      js ''                    </div>\<newline>'',
      js ''                    <div class="info-item">\<newline>'',
      js ''                        <strong>Duraci'' @ [0xF3] @ js ''n:</strong> '',
      duration project,
      js ''\<newline>'',
      js ''                    </div>\<newline>'',
      js ''                    <div class="info-item">\<newline>'',
      js ''                        <strong>Rol:</strong> '',
      role project,
      js ''\<newline>'',
      js ''                    </div>\<newline>'',
      js ''                </div>\<newline>'',
      js ''            </div>\<newline>'',
      js ''        </div>\<newline>'',
      js ''        \<newline>'',
      js ''        <div class="case-study-body">\<newline>'',
      js ''            <section class="case-study-section">\<newline>'',
      js ''                <h2>Objetivo</h2>\<newline>'',
      js ''                <p>'',
      objective project,
      js ''</p>\<newline>'',
      js ''            </section>\<newline>'',
      js ''            \<newline>'',
      js ''            <section class="case-study-section">\<newline>'',
      js ''                <h2>El Problema</h2>\<newline>'',
      js ''                <p>'',
      problem project,
      js ''</p>\<newline>'',
      js ''            </section>\<newline>'',
      js ''            \<newline>'',
      js ''            <section class="case-study-section">\<newline>'',
      js ''                <h2>Proceso</h2>\<newline>'',
      js ''                <ul class="process-list">\<newline>'',
      js ''                    '',
      concat (map (\<lambda>step. js ''<li>'' @ step @ js ''</li>'') (process project)),
      js ''\<newline>'',
      js ''                </ul>\<newline>'',
      js ''            </section>\<newline>'',
      js ''            \<newline>'',
      js ''            <section class="case-study-section">\<newline>'',
      js ''                <h2>La Soluci'' @ [0xF3] @ js ''n</h2>\<newline>'',
      js ''                <p>'',
      solution project,
      js ''</p>\<newline>'',
      js ''            </section>\<newline>'',
      js ''            \<newline>'',
      js ''            <section class="case-study-section">\<newline>'',
      js ''                <h2>Resultados</h2>\<newline>'',
      js ''                <div class="results-grid">\<newline>'',
      js ''                    '',
      concat (map (\<lambda>result. js ''<div class="result-item">'' @ result @ js ''</div>'') (results project)),
      js ''\<newline>'',
      js ''                </div>\<newline>'',
      js ''            </section>\<newline>'',
      js ''        </div>\<newline>'',
      js ''    '']\<close>

text \<open>
  \<open>caseStudies\<close> is an object literal, so \<open>caseStudies[projectId]\<close> finds the six own keys
  and, for any other key, whatever \<open>Object.prototype\<close> has under that name: a function
  or an object, which is truthy and has no \<open>process\<close> property. Any other key gives
  \<open>undefined\<close>.
\<close>

definition object_prototype_keys :: "jsstring list" where
  "object_prototype_keys =
     [js ''constructor'', js ''hasOwnProperty'', js ''isPrototypeOf'',
      js ''propertyIsEnumerable'', js ''toLocaleString'', js ''toString'', js ''valueOf'',
      js ''__proto__'', js ''__defineGetter__'', js ''__defineSetter__'',
      js ''__lookupGetter__'', js ''__lookupSetter__'']"

datatype lookup_result = Undefined | Project case_study | Inherited

definition caseStudies_get :: "jsstring \<Rightarrow> lookup_result" where
  "caseStudies_get projectId =
     (case map_of caseStudies projectId of
        Some project \<Rightarrow> Project project
      | None \<Rightarrow> if projectId \<in> set object_prototype_keys then Inherited else Undefined)"

text \<open>
  The shared \<open>state\<close> object and the parts of the document the modal controller touches:
  whether \<open>DOM.modal\<close> has the class \<open>active\<close>, \<open>document.body.style.overflow\<close>, the
  markup last assigned to \<open>DOM.modalContent.innerHTML\<close>, and whether \<open>focus()\<close> was
  called on \<open>DOM.modalClose\<close>. The cached elements are taken to exist.
\<close>

record modal_page =
  isMenuOpen :: bool
  isModalOpen :: bool
  currentProject :: "jsstring option"
  scrollPosition :: rat
  modalActive :: bool
  bodyOverflow :: jsstring
  modalContent :: jsstring
  closeFocused :: bool

definition initial_page :: modal_page where
  "initial_page =
     \<lparr>isMenuOpen = False, isModalOpen = False, currentProject = None, scrollPosition = 0,
      modalActive = False, bodyOverflow = [], modalContent = [], closeFocused = False\<rparr>"

datatype js_error = TypeError | Thrown

text \<open>
  \<^verbatim>\<open>
  const project = caseStudies[projectId];
  if (!project) return;
  const caseStudyHTML = `...`;
  DOM.modalContent.innerHTML = caseStudyHTML;
  \<close>
  For an inherited property the template reads \<open>project.process.map\<close> with
  \<open>project.process\<close> undefined, which throws before the assignment.
\<close>

definition loadCaseStudyContent :: "jsstring \<Rightarrow> modal_page \<Rightarrow> js_error + modal_page" where
  "loadCaseStudyContent projectId p =
     (case caseStudies_get projectId of
        Undefined \<Rightarrow> Inr p
      | Inherited \<Rightarrow> Inl TypeError
      | Project project \<Rightarrow> Inr (p\<lparr>modalContent := caseStudyHTML project\<rparr>))"

text \<open>
  \<^verbatim>\<open>
  function openCaseStudy(projectId) {
      state.isModalOpen = true;
      state.currentProject = projectId;
      DOM.modal.classList.add('active');
      document.body.style.overflow = 'hidden';
      loadCaseStudyContent(projectId);
      DOM.modalClose.focus();
  }
  \<close>
  The result is the page as the call leaves it, and the exception if one escapes.
\<close>

definition openCaseStudy :: "jsstring \<Rightarrow> modal_page \<Rightarrow> modal_page \<times> js_error option" where
  "openCaseStudy projectId p =
     (let p = p\<lparr>isModalOpen := True, currentProject := Some projectId\<rparr>;
          p = p\<lparr>modalActive := True\<rparr>;
          p = p\<lparr>bodyOverflow := js ''hidden''\<rparr>
      in case loadCaseStudyContent projectId p of
           Inl e \<Rightarrow> (p, Some e)
         | Inr p \<Rightarrow> (p\<lparr>closeFocused := True\<rparr>, None))"

text \<open>
  \<^verbatim>\<open>
  function closeModal() {
      state.isModalOpen = false;
      state.currentProject = null;
      DOM.modal.classList.remove('active');
      document.body.style.overflow = '';
      DOM.modalContent.innerHTML = '';
  }
  \<close>
\<close>

definition closeModal :: "modal_page \<Rightarrow> modal_page" where
  "closeModal p =
     p\<lparr>isModalOpen := False, currentProject := None, modalActive := False,
       bodyOverflow := [], modalContent := []\<rparr>"

section \<open>Navigation controller\<close>

text \<open>
  A \<open>section[id]\<close> element with its \<open>id\<close>, \<open>offsetTop\<close> and \<open>clientHeight\<close>, and a
  \<open>.nav-link\<close> element with its \<open>data-section\<close> attribute (\<open>getAttribute\<close> returns
  \<open>null\<close> when it is absent) and whether its class list has \<open>active\<close>.
\<close>

record page_section =
  section_id :: jsstring
  offsetTop :: int
  clientHeight :: int

record nav_link =
  data_section :: "jsstring option"
  active :: bool

text \<open>
  \<^verbatim>\<open>
  const sectionTop = section.offsetTop - 100;
  const sectionHeight = section.clientHeight;
  if (window.scrollY >= sectionTop && window.scrollY < sectionTop + sectionHeight)
  \<close>
\<close>

definition in_view :: "rat \<Rightarrow> page_section \<Rightarrow> bool" where
  "in_view scrollY sec =
     (let sectionTop = offsetTop sec - 100;
          sectionHeight = clientHeight sec
      in scrollY \<ge> of_int sectionTop \<and> scrollY < of_int (sectionTop + sectionHeight))"

text \<open>
  \<^verbatim>\<open>
  let current = '';
  sections.forEach(section => { if (...) { current = section.getAttribute('id'); } });
  \<close>
\<close>

definition current_section :: "rat \<Rightarrow> page_section list \<Rightarrow> jsstring" where
  "current_section scrollY sections =
     foldl (\<lambda>current sec. if in_view scrollY sec then section_id sec else current) [] sections"

text \<open>
  \<^verbatim>\<open>
  DOM.navLinks.forEach(link => {
      link.classList.remove('active');
      if (link.getAttribute('data-section') === current) {
          link.classList.add('active');
      }
  });
  \<close>
\<close>

definition updateActiveNavigation ::
  "rat \<Rightarrow> page_section list \<Rightarrow> nav_link list \<Rightarrow> nav_link list" where
  "updateActiveNavigation scrollY sections navLinks =
     (let current = current_section scrollY sections in
      map (\<lambda>link.
             (let link = link\<lparr>active := False\<rparr>
              in if data_section link = Some current then link\<lparr>active := True\<rparr> else link))
          navLinks)"

section \<open>Smooth scroll fallback: easing\<close>

text \<open>
  \<^verbatim>\<open>
  function easeInOutQuad(t, b, c, d) {
      t /= d / 2;
      if (t < 1) return c / 2 * t * t + b;
      t--;
      return -c / 2 * (t * (t - 2) - 1) + b;
  }
  \<close>
  The arithmetic is taken over the rationals.
\<close>

definition easeInOutQuad :: "rat \<Rightarrow> rat \<Rightarrow> rat \<Rightarrow> rat \<Rightarrow> rat" where
  "easeInOutQuad t b c d =
     (let t1 = t / (d / 2) in
      if t1 < 1 then c / 2 * t1 * t1 + b
      else (let t2 = t1 - 1 in (- c) / 2 * (t2 * (t2 - 2) - 1) + b))"

section \<open>Throttle\<close>

text \<open>
  \<^verbatim>\<open>
  function throttle(func, limit) {
      let inThrottle;
      return function() {
          const args = arguments;
          const context = this;
          if (!inThrottle) {
              func.apply(context, args);
              inThrottle = true;
              setTimeout(() => inThrottle = false, limit);
          }
      };
  }
  \<close>
  The closure of one throttled function: the flag \<open>inThrottle\<close> (\<open>undefined\<close> at first,
  which is falsy), the expiry times of the timers it has set and that have not fired,
  the clock in ms, and the arguments \<open>func\<close> has been applied to, oldest first.
  The delay \<open>limit\<close> is a number of ms. Handlers run to completion: a timer callback
  runs only between two calls, once the clock has reached its expiry time.
\<close>

record 'a throttled =
  inThrottle :: bool
  timers :: "nat list"
  now :: nat
  applied :: "'a list"

definition throttle :: "'a throttled" where
  "throttle = \<lparr>inThrottle = False, timers = [], now = 0, applied = []\<rparr>"

text \<open>
  One call of the throttled function: its arguments and, for the case that the wrapper
  applies \<open>func\<close> to them, what that application does as far as the closure can tell:
  the calls of the throttled function that \<open>func\<close> makes itself while it runs, in
  order, and whether it then returns or throws. An exception of such a nested call is
  not caught by \<open>func\<close>.
\<close>

datatype outcome = Returns | Throws

datatype 'a app = App 'a "'a app list" outcome

text \<open>
  A call of the returned function. The flag is read first; \<open>func\<close> is applied and runs
  to its end, nested calls included, while the flag is still down; only when \<open>func\<close>
  has returned is the flag set and the timer started. When \<open>func\<close> throws, the
  exception leaves the wrapper before either.
\<close>

fun call :: "nat \<Rightarrow> 'a app \<Rightarrow> 'a throttled \<Rightarrow> 'a throttled \<times> js_error option"
  and calls :: "nat \<Rightarrow> 'a app list \<Rightarrow> 'a throttled \<Rightarrow> 'a throttled \<times> js_error option" where
  "call limit (App args nested result) s =
     (if \<not> inThrottle s
      then (let s = s\<lparr>applied := applied s @ [args]\<rparr> in
            case calls limit nested s of
              (s, Some e) \<Rightarrow> (s, Some e)
            | (s, None) \<Rightarrow>
                (case result of
                   Throws \<Rightarrow> (s, Some Thrown)
                 | Returns \<Rightarrow>
                     (let s = s\<lparr>inThrottle := True\<rparr>
                      in (s\<lparr>timers := timers s @ [now s + limit]\<rparr>, None))))
      else (s, None))"
| "calls limit [] s = (s, None)"
| "calls limit (c # cs) s =
     (case call limit c s of
        (s, Some e) \<Rightarrow> (s, Some e)
      | (s, None) \<Rightarrow> calls limit cs s)"

text \<open>
  \<open>ms\<close> milliseconds pass with no call: every timer whose expiry time is reached fires
  (\<open>inThrottle = false\<close>) and is gone.
\<close>

definition elapse :: "nat \<Rightarrow> 'a throttled \<Rightarrow> 'a throttled" where
  "elapse ms s =
     (let t = now s + ms in
      s\<lparr>now := t,
        timers := filter (\<lambda>e. t < e) (timers s),
        inThrottle := (if \<exists>e \<in> set (timers s). e \<le> t then False else inThrottle s)\<rparr>)"

text \<open>
  What happens to the closure over time: calls from outside (an exception goes to the
  caller, the closure stays as the call left it) and pauses.
\<close>

datatype 'a event = Call "'a app" | Wait nat

fun step :: "nat \<Rightarrow> 'a event \<Rightarrow> 'a throttled \<Rightarrow> 'a throttled" where
  "step limit (Call c) s = fst (call limit c s)"
| "step limit (Wait ms) s = elapse ms s"

definition run :: "nat \<Rightarrow> 'a event list \<Rightarrow> 'a throttled \<Rightarrow> 'a throttled" where
  "run limit evs s = foldl (\<lambda>s ev. step limit ev s) s evs"

text \<open>The time that passes during a list of events.\<close>

fun waited :: "'a event list \<Rightarrow> nat" where
  "waited [] = 0"
| "waited (Call c # evs) = waited evs"
| "waited (Wait ms # evs) = ms + waited evs"

text \<open>Events that are all calls: no time passes, so no timer callback runs.\<close>

fun calls_only :: "'a event list \<Rightarrow> bool" where
  "calls_only [] = True"
| "calls_only (Call c # evs) = calls_only evs"
| "calls_only (Wait ms # evs) = False"

text \<open>No suppression window is open: the flag is down and no timer is waiting.\<close>

definition idle :: "'a throttled \<Rightarrow> bool" where
  "idle s \<longleftrightarrow> \<not> inThrottle s \<and> timers s = []"

section \<open>The wording of the specification\<close>

text \<open>
  The name rule as the specification words it: Latin letters, "including accented vowels
  and n with tilde", and spaces. A Latin letter is taken as a letter of the Latin script
  in the Basic Multilingual Plane: \<open>A-Z\<close> and \<open>a-z\<close>, the two ordinal indicators, the
  letters of the Latin-1 Supplement (U+00C0 to U+00FF without the multiplication and
  division signs), Latin Extended-A and -B, the IPA extensions, Latin Extended
  Additional, Latin Extended-C, -D and -E, and the fullwidth letters. A space is the
  character U+0020.
\<close>

definition spec_latin_letter :: "jschar \<Rightarrow> bool" where
  "spec_latin_letter c \<longleftrightarrow>
     (0x41 \<le> c \<and> c \<le> 0x5A) \<or> (0x61 \<le> c \<and> c \<le> 0x7A) \<or>
     c = 0xAA \<or> c = 0xBA \<or>
     (0xC0 \<le> c \<and> c \<le> 0xFF \<and> c \<noteq> 0xD7 \<and> c \<noteq> 0xF7) \<or>
     (0x0100 \<le> c \<and> c \<le> 0x024F) \<or>
     (0x0250 \<le> c \<and> c \<le> 0x02AF) \<or>
     (0x1E00 \<le> c \<and> c \<le> 0x1EFF) \<or>
     (0x2C60 \<le> c \<and> c \<le> 0x2C7F) \<or>
     (0xA720 \<le> c \<and> c \<le> 0xA7FF) \<or>
     (0xAB30 \<le> c \<and> c \<le> 0xAB6F) \<or>
     (0xFF21 \<le> c \<and> c \<le> 0xFF3A) \<or> (0xFF41 \<le> c \<and> c \<le> 0xFF5A)"

definition spec_name_char :: "jschar \<Rightarrow> bool" where
  "spec_name_char c \<longleftrightarrow> spec_latin_letter c \<or> c = 0x20"

text \<open>
  An email input "lacking an \<open>@\<close> or a \<open>.\<close> after it": no \<open>@\<close> at all, or no \<open>.\<close> behind
  the first \<open>@\<close> (a \<open>.\<close> behind any \<open>@\<close> is behind the first one).
\<close>

definition lacks_at_or_dot_after :: "jsstring \<Rightarrow> bool" where
  "lacks_at_or_dot_after s \<longleftrightarrow>
     0x40 \<notin> set s \<or> 0x2E \<notin> set (drop 1 (dropWhile (\<lambda>c. c \<noteq> 0x40) s))"

section \<open>The derivative test decides the language\<close>

inductive_cases matches_NeverE: "matches Never w"
inductive_cases matches_EmptyE: "matches Empty w"
inductive_cases matches_ClassE: "matches (Class P) w"
inductive_cases matches_OrE: "matches (Or r s) w"
inductive_cases matches_ThenE: "matches (Then r s) w"

lemma matches_Never [simp]: "\<not> matches Never w"
  by (auto elim: matches_NeverE)

lemma matches_Empty [simp]: "matches Empty w \<longleftrightarrow> w = []"
  by (auto elim: matches_EmptyE intro: m_Empty)

lemma matches_Class [simp]: "matches (Class P) w \<longleftrightarrow> (\<exists>c. w = [c] \<and> P c)"
  by (auto elim: matches_ClassE intro: m_Class)

lemma matches_Or [simp]: "matches (Or r s) w \<longleftrightarrow> matches r w \<or> matches s w"
  by (auto elim: matches_OrE intro: m_OrL m_OrR)

lemma matches_Then:
  "matches (Then r s) w \<longleftrightarrow> (\<exists>u v. w = u @ v \<and> matches r u \<and> matches s v)"
  by (blast elim: matches_ThenE intro: m_Then)

text \<open>
  A non-empty word of \<open>Many r\<close> starts with a non-empty word of \<open>r\<close>: iterations that
  consume nothing are skipped.
\<close>

lemma matches_Many_Cons_aux:
  "matches x w \<Longrightarrow> x = Many r \<Longrightarrow> w = c # t \<Longrightarrow>
   \<exists>u v. t = u @ v \<and> matches r (c # u) \<and> matches (Many r) v"
proof (induction arbitrary: t rule: matches.induct)
  case (m_ManyS r' u v)
  show ?case
  proof (cases u)
    case Nil
    with m_ManyS show ?thesis by simp
  next
    case (Cons a u')
    with m_ManyS.prems have "a = c" "t = u' @ v" by simp_all
    with m_ManyS.hyps m_ManyS.prems Cons show ?thesis by blast
  qed
qed simp_all

lemma matches_Many_Cons:
  "matches (Many r) (c # t) \<longleftrightarrow>
   (\<exists>u v. t = u @ v \<and> matches r (c # u) \<and> matches (Many r) v)"
proof
  assume "matches (Many r) (c # t)"
  then show "\<exists>u v. t = u @ v \<and> matches r (c # u) \<and> matches (Many r) v"
    by (rule matches_Many_Cons_aux) simp_all
next
  assume "\<exists>u v. t = u @ v \<and> matches r (c # u) \<and> matches (Many r) v"
  then obtain u v where "t = u @ v" "matches r (c # u)" "matches (Many r) v" by blast
  then show "matches (Many r) (c # t)"
    using m_ManyS [of r "c # u" v] by simp
qed

lemma nullable_matches: "nullable r \<longleftrightarrow> matches r []"
  by (induction r) (auto simp: matches_Then intro: m_Many0)

lemma deriv_matches: "matches (deriv c r) w \<longleftrightarrow> matches r (c # w)"
proof (induction r arbitrary: w)
  case (Then r s)
  show ?case
  proof
    assume "matches (deriv c (Then r s)) w"
    then consider (left) u v where "w = u @ v" "matches (deriv c r) u" "matches s v"
      | (right) "nullable r" "matches (deriv c s) w"
      by (auto simp: matches_Then split: if_splits)
    then show "matches (Then r s) (c # w)"
    proof cases
      case left
      then show ?thesis using Then.IH(1) m_Then [of r "c # u" s v] by simp
    next
      case right
      then show ?thesis using Then.IH(2) m_Then [of r "[]" s "c # w"]
        by (simp add: nullable_matches)
    qed
  next
    assume "matches (Then r s) (c # w)"
    then obtain u v where uv: "c # w = u @ v" "matches r u" "matches s v"
      by (auto simp: matches_Then)
    show "matches (deriv c (Then r s)) w"
    proof (cases u)
      case Nil
      with uv Then.IH(2) show ?thesis by (simp add: nullable_matches matches_Then)
    next
      case (Cons a u')
      with uv have "matches (deriv c r) u'" "w = u' @ v" using Then.IH(1) by simp_all
      with uv show ?thesis by (auto simp: matches_Then)
    qed
  qed
next
  case (Many r)
  then show ?case by (simp add: matches_Then matches_Many_Cons)
qed simp_all

lemma regex_test_matches: "regex_test r w \<longleftrightarrow> matches r w"
  by (induction w arbitrary: r) (simp_all add: nullable_matches deriv_matches)

lemma matches_Many_Class: "matches (Many (Class P)) w \<longleftrightarrow> list_all P w"
proof (induction w)
  case Nil
  show ?case by (simp add: m_Many0)
next
  case (Cons c w)
  then show ?case by (simp add: matches_Many_Cons)
qed

lemma matches_Then_Class:
  "matches (Then (Class P) s) w \<longleftrightarrow> (\<exists>c v. w = c # v \<and> P c \<and> matches s v)"
proof
  assume "matches (Then (Class P) s) w"
  then show "\<exists>c v. w = c # v \<and> P c \<and> matches s v"
    by (auto simp: matches_Then)
next
  assume "\<exists>c v. w = c # v \<and> P c \<and> matches s v"
  then obtain c v where w: "w = c # v" and "P c" "matches s v" by blast
  then have "matches (Then (Class P) s) ([c] @ v)"
    by (intro m_Then m_Class)
  with w show "matches (Then (Class P) s) w" by simp
qed

lemma matches_OneOrMore_Class:
  "matches (OneOrMore (Class P)) w \<longleftrightarrow> w \<noteq> [] \<and> list_all P w"
  by (cases w) (simp_all add: OneOrMore_def matches_Then_Class matches_Many_Class)

lemma nombreRegex_test:
  "regex_test nombreRegex w \<longleftrightarrow> w \<noteq> [] \<and> list_all nombre_class w"
  by (simp add: regex_test_matches nombreRegex_def matches_OneOrMore_Class)

lemma emailRegex_test:
  "regex_test emailRegex w \<longleftrightarrow>
   (\<exists>l d t. w = l @ 0x40 # d @ 0x2E # t \<and>
      l \<noteq> [] \<and> list_all email_class l \<and>
      d \<noteq> [] \<and> list_all email_class d \<and>
      t \<noteq> [] \<and> list_all email_class t)"
proof
  assume "regex_test emailRegex w"
  then show "\<exists>l d t. w = l @ 0x40 # d @ 0x2E # t \<and>
      l \<noteq> [] \<and> list_all email_class l \<and>
      d \<noteq> [] \<and> list_all email_class d \<and>
      t \<noteq> [] \<and> list_all email_class t"
    unfolding regex_test_matches emailRegex_def matches_Then matches_OneOrMore_Class
      matches_Class
    by auto
next
  assume "\<exists>l d t. w = l @ 0x40 # d @ 0x2E # t \<and>
      l \<noteq> [] \<and> list_all email_class l \<and>
      d \<noteq> [] \<and> list_all email_class d \<and>
      t \<noteq> [] \<and> list_all email_class t"
  then obtain l d t where w: "w = l @ 0x40 # d @ 0x2E # t"
    and l: "matches (OneOrMore (Class email_class)) l"
    and d: "matches (OneOrMore (Class email_class)) d"
    and t: "matches (OneOrMore (Class email_class)) t"
    by (auto simp: matches_OneOrMore_Class)
  have "matches (Then (Class (\<lambda>c. c = 0x2E)) (OneOrMore (Class email_class))) (0x2E # t)"
    using t by (simp add: matches_Then_Class)
  with d have "matches (Then (OneOrMore (Class email_class))
      (Then (Class (\<lambda>c. c = 0x2E)) (OneOrMore (Class email_class)))) (d @ 0x2E # t)"
    by (rule m_Then)
  then have "matches (Then (Class (\<lambda>c. c = 0x40)) (Then (OneOrMore (Class email_class))
      (Then (Class (\<lambda>c. c = 0x2E)) (OneOrMore (Class email_class))))) (0x40 # d @ 0x2E # t)"
    by (simp add: matches_Then_Class)
  with l have "matches emailRegex (l @ 0x40 # d @ 0x2E # t)"
    unfolding emailRegex_def by (rule m_Then)
  with w show "regex_test emailRegex w"
    by (simp add: regex_test_matches)
qed

lemma emailRegex_needs_at_and_dot:
  assumes "regex_test emailRegex w"
  shows "\<not> lacks_at_or_dot_after w"
proof -
  from assms obtain l d t where w: "w = l @ 0x40 # d @ 0x2E # t" and l: "list_all email_class l"
    by (auto simp: emailRegex_test)
  from l have "\<forall>c \<in> set l. c \<noteq> 0x40"
    by (auto simp: list_all_iff email_class_def)
  then have "dropWhile (\<lambda>c. c \<noteq> 0x40) w = 0x40 # d @ 0x2E # t"
    by (simp add: w dropWhile_append2)
  then show ?thesis
    by (simp add: lacks_at_or_dot_after_def w)
qed

text \<open>The wording with positions: some \<open>@\<close> stands before some \<open>.\<close>.\<close>

lemma lacks_at_or_dot_after_iff:
  "lacks_at_or_dot_after s \<longleftrightarrow>
   \<not> (\<exists>i j. i < j \<and> j < length s \<and> s ! i = 0x40 \<and> s ! j = 0x2E)"
proof -
  let ?P = "\<lambda>c::jschar. c \<noteq> 0x40"
  define a where "a = takeWhile ?P s"
  define b where "b = dropWhile ?P s"
  have s: "s = a @ b" by (simp add: a_def b_def)
  have a: "\<forall>c \<in> set a. c \<noteq> 0x40" by (auto simp: a_def dest: set_takeWhileD)
  show ?thesis
  proof (cases b)
    case Nil
    with s a have "0x40 \<notin> set s" by auto
    then have "\<And>i. i < length s \<Longrightarrow> s ! i \<noteq> 0x40" by (metis nth_mem)
    with \<open>0x40 \<notin> set s\<close> show ?thesis
      by (auto simp: lacks_at_or_dot_after_def)
  next
    case (Cons x b')
    then have x: "x = 0x40" using hd_dropWhile [of ?P s] by (simp add: b_def)
    have in_s: "0x40 \<in> set s" using s Cons x by simp
    have lhs: "lacks_at_or_dot_after s \<longleftrightarrow> 0x2E \<notin> set b'"
      using in_s Cons by (simp add: lacks_at_or_dot_after_def b_def [symmetric])
    show ?thesis
    proof
      assume L: "lacks_at_or_dot_after s"
      show "\<not> (\<exists>i j. i < j \<and> j < length s \<and> s ! i = 0x40 \<and> s ! j = 0x2E)"
      proof
        assume "\<exists>i j. i < j \<and> j < length s \<and> s ! i = 0x40 \<and> s ! j = 0x2E"
        then obtain i j where ij: "i < j" "j < length s" "s ! i = 0x40" "s ! j = 0x2E" by blast
        have "\<not> i < length a"
        proof
          assume "i < length a"
          then have "s ! i \<in> set a" by (simp add: s nth_append)
          with a ij(3) show False by auto
        qed
        then have "length a < j" using ij(1) by simp
        then have "s ! j = b' ! (j - length a - 1)"
          by (simp add: s Cons nth_append nth_Cons')
        moreover have "j - length a - 1 < length b'"
          using ij(2) \<open>length a < j\<close> by (simp add: s Cons)
        ultimately have "0x2E \<in> set b'" using ij(4) by (metis nth_mem)
        with L lhs show False by simp
      qed
    next
      assume R: "\<not> (\<exists>i j. i < j \<and> j < length s \<and> s ! i = 0x40 \<and> s ! j = 0x2E)"
      have "0x2E \<notin> set b'"
      proof
        assume "0x2E \<in> set b'"
        then obtain k where k: "k < length b'" "b' ! k = 0x2E" by (auto simp: in_set_conv_nth)
        have "s ! length a = 0x40" by (simp add: s Cons x)
        moreover have "s ! (length a + 1 + k) = 0x2E"
          using k by (simp add: s Cons nth_append)
        moreover have "length a + 1 + k < length s" using k by (simp add: s Cons)
        ultimately show False using R by (metis add.assoc less_add_one trans_less_add1)
      qed
      with lhs show "lacks_at_or_dot_after s" by simp
    qed
  qed
qed

section \<open>Which messages \<open>validateForm\<close> returns\<close>

lemma validateForm_NombreCorto:
  "NombreCorto \<in> set (validateForm data) \<longleftrightarrow> length (nombre data) < 2"
  by (auto simp: validateForm_def Let_def)

lemma validateForm_NombreLetras:
  "NombreLetras \<in> set (validateForm data) \<longleftrightarrow>
   2 \<le> length (nombre data) \<and> \<not> list_all nombre_class (nombre data)"
  by (auto simp: validateForm_def Let_def nombreRegex_test)

lemma validateForm_EmailInvalido:
  "EmailInvalido \<in> set (validateForm data) \<longleftrightarrow> \<not> regex_test emailRegex (email data)"
  by (auto simp: validateForm_def Let_def emailRegex_test)

lemma validateForm_MensajeCorto:
  "MensajeCorto \<in> set (validateForm data) \<longleftrightarrow> length (mensaje data) < 10"
  by (auto simp: validateForm_def Let_def)

text \<open>Every character of the name pattern's class is a Latin letter or white space.\<close>

lemma nombre_class_latin_or_space:
  "nombre_class c \<Longrightarrow> spec_latin_letter c \<or> is_js_whitespace c"
proof -
  assume "nombre_class c"
  then consider "0x61 \<le> c \<and> c \<le> 0x7A" | "0x41 \<le> c \<and> c \<le> 0x5A"
    | "c \<in> {0xE1, 0xE9, 0xED, 0xF3, 0xFA, 0xC1, 0xC9, 0xCD, 0xD3, 0xDA, 0xF1, 0xD1}"
    | "is_js_whitespace c"
    unfolding nombre_class_def by blast
  then show ?thesis
  proof cases
    case 1
    then show ?thesis by (simp add: spec_latin_letter_def)
  next
    case 2
    then show ?thesis by (simp add: spec_latin_letter_def)
  next
    case 3
    then have "0xC0 \<le> c \<and> c \<le> 0xFF \<and> c \<noteq> 0xD7 \<and> c \<noteq> 0xF7"
      by (elim insertE emptyE) simp_all
    then show ?thesis by (simp add: spec_latin_letter_def)
  next
    case 4
    then show ?thesis by simp
  qed
qed

section \<open>Form validation\<close>

text \<open>
  C2, as amended. A name of at least two code units that consists only of the letters
  \<open>a-z\<close> and \<open>A-Z\<close>, the ten vowels with acute accent, the two letters n with tilde, and
  white-space characters (everything \<open>\s\<close> matches: the space, but also tab, line
  breaks, the no-break space and the other Unicode spaces) passes the name rule:
  neither name message is returned. A name shorter than two code units (the empty name
  included) gets the length message and only that one. A name of at least two code
  units with a character that is neither a Latin letter nor white space gets the
  letters-and-spaces message and only that one.
\<close>

theorem name_rule:
  "(2 \<le> length (nombre data) \<and> list_all nombre_class (nombre data) \<longrightarrow>
        NombreCorto \<notin> set (validateForm data) \<and> NombreLetras \<notin> set (validateForm data)) \<and>
   (length (nombre data) < 2 \<longrightarrow>
        NombreCorto \<in> set (validateForm data) \<and> NombreLetras \<notin> set (validateForm data)) \<and>
   (2 \<le> length (nombre data) \<and>
      \<not> list_all (\<lambda>c. spec_latin_letter c \<or> is_js_whitespace c) (nombre data) \<longrightarrow>
        NombreLetras \<in> set (validateForm data) \<and> NombreCorto \<notin> set (validateForm data))"
proof -
  have "\<not> list_all nombre_class (nombre data)"
    if "\<not> list_all (\<lambda>c. spec_latin_letter c \<or> is_js_whitespace c) (nombre data)"
    using that nombre_class_latin_or_space by (auto simp: list_all_iff)
  then show ?thesis
    by (auto simp: validateForm_NombreCorto validateForm_NombreLetras)
qed

text \<open>
  The three cases: at the name \<open>Ana Perez\<close> written with U+00E9, at \<open>A\<close> and at \<open>A1\<close>.
\<close>

theorem name_rule_witness:
  "(2 \<le> length (js ''Ana P'' @ [0xE9] @ js ''rez'') \<and>
    list_all nombre_class (js ''Ana P'' @ [0xE9] @ js ''rez'') \<and>
    NombreCorto \<notin> set (validateForm \<lparr>nombre = js ''Ana P'' @ [0xE9] @ js ''rez'', email = [], mensaje = []\<rparr>) \<and>
    NombreLetras \<notin> set (validateForm \<lparr>nombre = js ''Ana P'' @ [0xE9] @ js ''rez'', email = [], mensaje = []\<rparr>)) \<and>
   (length (js ''A'') < 2 \<and>
    NombreCorto \<in> set (validateForm \<lparr>nombre = js ''A'', email = [], mensaje = []\<rparr>) \<and>
    NombreLetras \<notin> set (validateForm \<lparr>nombre = js ''A'', email = [], mensaje = []\<rparr>)) \<and>
   (2 \<le> length (js ''A1'') \<and>
    \<not> list_all (\<lambda>c. spec_latin_letter c \<or> is_js_whitespace c) (js ''A1'') \<and>
    NombreLetras \<in> set (validateForm \<lparr>nombre = js ''A1'', email = [], mensaje = []\<rparr>) \<and>
    NombreCorto \<notin> set (validateForm \<lparr>nombre = js ''A1'', email = [], mensaje = []\<rparr>))"
  using name_rule [of "\<lparr>nombre = js ''Ana P'' @ [0xE9] @ js ''rez'', email = [], mensaje = []\<rparr>"]
    name_rule [of "\<lparr>nombre = js ''A'', email = [], mensaje = []\<rparr>"]
    name_rule [of "\<lparr>nombre = js ''A1'', email = [], mensaje = []\<rparr>"]
  by (simp add: js_def nombre_class_def spec_latin_letter_def is_js_whitespace_def)

text \<open>
  The claim as worded fails both ways. \<open>Ana\<close>, TAB, \<open>Perez\<close> has a character that is
  neither a Latin letter nor a space, yet \<open>validateForm\<close> returns neither name message.
  \<open>Muller\<close> written with U+00FC (u with diaeresis) has six characters, all of them Latin
  letters, yet \<open>validateForm\<close> returns the letters-and-spaces message.
\<close>

theorem name_rule_counterexample:
  "(\<not> list_all spec_name_char (js ''Ana'' @ [0x09] @ js ''Perez'') \<and>
    NombreCorto \<notin> set (validateForm
      \<lparr>nombre = js ''Ana'' @ [0x09] @ js ''Perez'', email = js ''ana@x.com'',
       mensaje = js ''Hola, quiero contactarte''\<rparr>) \<and>
    NombreLetras \<notin> set (validateForm
      \<lparr>nombre = js ''Ana'' @ [0x09] @ js ''Perez'', email = js ''ana@x.com'',
       mensaje = js ''Hola, quiero contactarte''\<rparr>)) \<and>
   (list_all spec_name_char (js ''M'' @ [0xFC] @ js ''ller'') \<and>
    2 \<le> length (js ''M'' @ [0xFC] @ js ''ller'') \<and>
    NombreLetras \<in> set (validateForm
      \<lparr>nombre = js ''M'' @ [0xFC] @ js ''ller'', email = js ''ana@x.com'',
       mensaje = js ''Hola, quiero contactarte''\<rparr>))"
  by (simp add: validateForm_def nombreRegex_def emailRegex_def OneOrMore_def nombre_class_def
      email_class_def is_js_whitespace_def spec_name_char_def spec_latin_letter_def js_def)

text \<open>
  C3. An email input with no \<open>@\<close>, or with no \<open>.\<close> after the \<open>@\<close>, gets the email message;
  \<open>a@b.co\<close> does not get it, \<open>a@b\<close> and \<open>a\<close> get it (whatever the other two fields are).
\<close>

theorem email_rule:
  "(lacks_at_or_dot_after (email data) \<longrightarrow> EmailInvalido \<in> set (validateForm data)) \<and>
   EmailInvalido \<notin> set (validateForm (data\<lparr>email := js ''a@b.co''\<rparr>)) \<and>
   EmailInvalido \<in> set (validateForm (data\<lparr>email := js ''a@b''\<rparr>)) \<and>
   EmailInvalido \<in> set (validateForm (data\<lparr>email := js ''a''\<rparr>))"
proof -
  have "lacks_at_or_dot_after (email data) \<longrightarrow> EmailInvalido \<in> set (validateForm data)"
    using emailRegex_needs_at_and_dot [of "email data"]
    by (auto simp: validateForm_EmailInvalido)
  moreover have "regex_test emailRegex (js ''a@b.co'')"
    by (simp add: emailRegex_def OneOrMore_def email_class_def is_js_whitespace_def js_def)
  moreover have "\<not> regex_test emailRegex (js ''a@b'')"
    by (simp add: emailRegex_def OneOrMore_def email_class_def is_js_whitespace_def js_def)
  moreover have "\<not> regex_test emailRegex (js ''a'')"
    by (simp add: emailRegex_def OneOrMore_def email_class_def is_js_whitespace_def js_def)
  ultimately show ?thesis
    by (simp add: validateForm_EmailInvalido)
qed

text \<open>
  The general part at \<open>user.name@domain\<close>, whose only \<open>.\<close> stands before the \<open>@\<close>.
\<close>

theorem email_rule_witness:
  "lacks_at_or_dot_after (js ''user.name@domain'') \<and>
   EmailInvalido \<in> set (validateForm
     \<lparr>nombre = js ''Ana'', email = js ''user.name@domain'', mensaje = js ''Hola''\<rparr>)"
  using email_rule [of "\<lparr>nombre = js ''Ana'', email = js ''user.name@domain'', mensaje = js ''Hola''\<rparr>"]
  by (simp add: lacks_at_or_dot_after_def js_def)

text \<open>
  C4. A message shorter than ten code units gets the message-rule message; a message of
  exactly ten code units does not.
\<close>

theorem message_rule:
  "(length (mensaje data) < 10 \<longrightarrow> MensajeCorto \<in> set (validateForm data)) \<and>
   (length (mensaje data) = 10 \<longrightarrow> MensajeCorto \<notin> set (validateForm data))"
  by (simp add: validateForm_MensajeCorto)

theorem message_rule_witness:
  "(length (js ''short'') < 10 \<and>
    MensajeCorto \<in> set (validateForm \<lparr>nombre = [], email = [], mensaje = js ''short''\<rparr>)) \<and>
   (length (js ''0123456789'') = 10 \<and>
    MensajeCorto \<notin> set (validateForm \<lparr>nombre = [], email = [], mensaje = js ''0123456789''\<rparr>))"
  using message_rule [of "\<lparr>nombre = [], email = [], mensaje = js ''short''\<rparr>"]
    message_rule [of "\<lparr>nombre = [], email = [], mensaje = js ''0123456789''\<rparr>"]
  by (simp add: js_def)

text \<open>
  C9. For every input record \<open>validateForm\<close> returns at most three messages: at most one
  of the two name messages, then at most the email message, then at most the message-rule
  message, in this order.
\<close>

theorem validateForm_shape:
  "length (validateForm data) \<le> 3 \<and>
   (\<exists>n e m. validateForm data = n @ e @ m \<and>
      (n = [] \<or> n = [NombreCorto] \<or> n = [NombreLetras]) \<and>
      (e = [] \<or> e = [EmailInvalido]) \<and>
      (m = [] \<or> m = [MensajeCorto]))"
proof -
  define n where "n = (if nombre data = [] \<or> length (nombre data) < 2 then [NombreCorto]
      else if \<not> regex_test nombreRegex (nombre data) then [NombreLetras] else [])"
  define e where "e = (if email data = [] \<or> \<not> regex_test emailRegex (email data)
      then [EmailInvalido] else [])"
  define m where "m = (if mensaje data = [] \<or> length (mensaje data) < 10
      then [MensajeCorto] else [])"
  have eq: "validateForm data = n @ e @ m"
    by (simp add: validateForm_def Let_def n_def e_def m_def)
  have n: "n = [] \<or> n = [NombreCorto] \<or> n = [NombreLetras]" by (simp add: n_def)
  have e: "e = [] \<or> e = [EmailInvalido]" by (simp add: e_def)
  have m: "m = [] \<or> m = [MensajeCorto]" by (simp add: m_def)
  from n e m have "length (n @ e @ m) \<le> 3" by auto
  with eq n e m show ?thesis by auto
qed

section \<open>Submitting the form\<close>

text \<open>
  A timer callback reads nothing of the \<open>.form-error\<close> blocks: two pages that differ
  only there differ only there afterwards.
\<close>

lemma fire_formErrors:
  "\<exists>blocks'. fire callback (p\<lparr>formErrors := blocks\<rparr>) = (fire callback p)\<lparr>formErrors := blocks'\<rparr>"
proof (cases callback)
  case (SubmissionDone data originalText)
  then have "fire callback (p\<lparr>formErrors := blocks\<rparr>) = (fire callback p)\<lparr>formErrors := []\<rparr>"
    by (simp add: showSuccessMessage_def Let_def)
  then show ?thesis ..
next
  case RemoveSuccess
  then have "fire callback (p\<lparr>formErrors := blocks\<rparr>) = (fire callback p)\<lparr>formErrors := blocks\<rparr>"
    by simp
  then show ?thesis ..
qed

lemma fire_all_formErrors:
  "\<exists>blocks'. fire_all callbacks (p\<lparr>formErrors := blocks\<rparr>) =
     (fire_all callbacks p)\<lparr>formErrors := blocks'\<rparr>"
proof (induction callbacks arbitrary: p blocks)
  case Nil
  have "fire_all [] (p\<lparr>formErrors := blocks\<rparr>) = (fire_all [] p)\<lparr>formErrors := blocks\<rparr>"
    by (simp add: fire_all_def)
  then show ?case ..
next
  case (Cons callback callbacks)
  obtain b where b: "fire callback (p\<lparr>formErrors := blocks\<rparr>) = (fire callback p)\<lparr>formErrors := b\<rparr>"
    using fire_formErrors by blast
  obtain b' where "fire_all callbacks ((fire callback p)\<lparr>formErrors := b\<rparr>) =
      (fire_all callbacks (fire callback p))\<lparr>formErrors := b'\<rparr>"
    using Cons.IH by blast
  with b have "fire_all (callback # callbacks) (p\<lparr>formErrors := blocks\<rparr>) =
      (fire_all (callback # callbacks) p)\<lparr>formErrors := b'\<rparr>"
    by (simp add: fire_all_def)
  then show ?case ..
qed

text \<open>
  C5. When validation of the submitted (trimmed) data returns any message,
  \<open>handleFormSubmit\<close> shows exactly those messages in one block and does nothing else:
  the fields keep their values, no banner is shown, the button is untouched and no timer
  is set, so the simulated send and its success banner never happen for this attempt:
  whatever timer callbacks fire later, the banners and the field values are those of a
  page on which the attempt was never made.
  With \<open>A1\<close>, \<open>bad\<close> and \<open>short\<close> in the fields the block has exactly three messages.
\<close>

theorem submit_invalid:
  "(validateForm (submitted_data p) \<noteq> [] \<longrightarrow>
      handleFormSubmit p = p\<lparr>formErrors := [validateForm (submitted_data p)]\<rparr> \<and>
      inputs (handleFormSubmit p) = inputs p \<and>
      successBanners (handleFormSubmit p) = successBanners p \<and>
      scheduled (handleFormSubmit p) = scheduled p \<and>
      submitDisabled (handleFormSubmit p) = submitDisabled p \<and>
      console (handleFormSubmit p) = console p \<and>
      successBanners (fire_all callbacks (handleFormSubmit p)) =
        successBanners (fire_all callbacks p) \<and>
      inputs (fire_all callbacks (handleFormSubmit p)) = inputs (fire_all callbacks p)) \<and>
   (inputs p = \<lparr>nombre = js ''A1'', email = js ''bad'', mensaje = js ''short''\<rparr> \<longrightarrow>
      formErrors (handleFormSubmit p) = [[NombreLetras, EmailInvalido, MensajeCorto]] \<and>
      length (concat (formErrors (handleFormSubmit p))) = 3 \<and>
      inputs (handleFormSubmit p) = inputs p \<and>
      successBanners (handleFormSubmit p) = successBanners p \<and>
      scheduled (handleFormSubmit p) = scheduled p)"
proof -
  have general: "handleFormSubmit p = p\<lparr>formErrors := [validateForm (submitted_data p)]\<rparr>"
    if "validateForm (submitted_data p) \<noteq> []"
    using that by (simp add: handleFormSubmit_def Let_def showFormErrors_def)
  have scenario: "validateForm (submitted_data p) = [NombreLetras, EmailInvalido, MensajeCorto]"
    if "inputs p = \<lparr>nombre = js ''A1'', email = js ''bad'', mensaje = js ''short''\<rparr>"
  proof -
    have "submitted_data p = \<lparr>nombre = js ''A1'', email = js ''bad'', mensaje = js ''short''\<rparr>"
      using that by (simp add: submitted_data_def trim_def is_js_whitespace_def js_def)
    then show ?thesis
      by (simp add: validateForm_def nombreRegex_def emailRegex_def OneOrMore_def
          nombre_class_def email_class_def is_js_whitespace_def js_def)
  qed
  have later: "successBanners (fire_all callbacks (p\<lparr>formErrors := blocks\<rparr>)) =
        successBanners (fire_all callbacks p)"
      "inputs (fire_all callbacks (p\<lparr>formErrors := blocks\<rparr>)) = inputs (fire_all callbacks p)"
    for blocks
    using fire_all_formErrors [of callbacks blocks p] by auto
  show ?thesis
  proof (intro conjI impI)
    assume "inputs p = \<lparr>nombre = js ''A1'', email = js ''bad'', mensaje = js ''short''\<rparr>"
    then have v: "validateForm (submitted_data p) = [NombreLetras, EmailInvalido, MensajeCorto]"
      by (rule scenario)
    then have h: "handleFormSubmit p = p\<lparr>formErrors := [[NombreLetras, EmailInvalido, MensajeCorto]]\<rparr>"
      using general by simp
    show "formErrors (handleFormSubmit p) = [[NombreLetras, EmailInvalido, MensajeCorto]]"
      "length (concat (formErrors (handleFormSubmit p))) = 3"
      "inputs (handleFormSubmit p) = inputs p"
      "successBanners (handleFormSubmit p) = successBanners p"
      "scheduled (handleFormSubmit p) = scheduled p"
      by (simp_all add: h)
  qed (simp_all add: general later)
qed

text \<open>
  Both parts on a fresh page holding \<open>A1\<close>, \<open>bad\<close> and \<open>short\<close>.
\<close>

theorem submit_invalid_witness:
  "validateForm (submitted_data
     \<lparr>inputs = \<lparr>nombre = js ''A1'', email = js ''bad'', mensaje = js ''short''\<rparr>,
      defaults = \<lparr>nombre = [], email = [], mensaje = []\<rparr>,
      formErrors = [], fieldErrors = 0, successBanners = 0, submitText = js ''Enviar'',
      submitDisabled = False, scheduled = [], console = []\<rparr>) \<noteq> [] \<and>
   handleFormSubmit
     \<lparr>inputs = \<lparr>nombre = js ''A1'', email = js ''bad'', mensaje = js ''short''\<rparr>,
      defaults = \<lparr>nombre = [], email = [], mensaje = []\<rparr>,
      formErrors = [], fieldErrors = 0, successBanners = 0, submitText = js ''Enviar'',
      submitDisabled = False, scheduled = [], console = []\<rparr> =
     \<lparr>inputs = \<lparr>nombre = js ''A1'', email = js ''bad'', mensaje = js ''short''\<rparr>,
      defaults = \<lparr>nombre = [], email = [], mensaje = []\<rparr>,
      formErrors = [[NombreLetras, EmailInvalido, MensajeCorto]], fieldErrors = 0,
      successBanners = 0, submitText = js ''Enviar'',
      submitDisabled = False, scheduled = [], console = []\<rparr>"
proof -
  let ?p = "\<lparr>inputs = \<lparr>nombre = js ''A1'', email = js ''bad'', mensaje = js ''short''\<rparr>,
      defaults = \<lparr>nombre = [], email = [], mensaje = []\<rparr>,
      formErrors = [], fieldErrors = 0, successBanners = 0, submitText = js ''Enviar'',
      submitDisabled = False, scheduled = [], console = []\<rparr>"
  have v: "validateForm (submitted_data ?p) = [NombreLetras, EmailInvalido, MensajeCorto]"
    by (simp add: submitted_data_def trim_def validateForm_def nombreRegex_def emailRegex_def
        OneOrMore_def nombre_class_def email_class_def is_js_whitespace_def js_def)
  then have ne: "validateForm (submitted_data ?p) \<noteq> []" by simp
  show ?thesis
    using submit_invalid [of ?p] ne v by simp
qed

section \<open>Opening and closing the modal\<close>

text \<open>
  C1, as amended. For every project id that is not a key of the case-study table,
  \<open>openCaseStudy\<close> leaves the rendered content as it was, but it does open the modal:
  \<open>isModalOpen\<close> becomes true, \<open>currentProject\<close> becomes the id, the modal gets its
  \<open>active\<close> class and page scroll is locked. Unless the id names a property inherited
  from \<open>Object.prototype\<close>, the call returns normally.
\<close>

theorem open_unknown:
  "projectId \<notin> set (map fst caseStudies) \<Longrightarrow>
   modalContent (fst (openCaseStudy projectId p)) = modalContent p \<and>
   isModalOpen (fst (openCaseStudy projectId p)) \<and>
   currentProject (fst (openCaseStudy projectId p)) = Some projectId \<and>
   modalActive (fst (openCaseStudy projectId p)) \<and>
   bodyOverflow (fst (openCaseStudy projectId p)) = js ''hidden'' \<and>
   (projectId \<notin> set object_prototype_keys \<longrightarrow> snd (openCaseStudy projectId p) = None)"
proof -
  assume "projectId \<notin> set (map fst caseStudies)"
  then have "map_of caseStudies projectId = None"
    by (simp add: map_of_eq_None_iff)
  then show ?thesis
    by (simp add: openCaseStudy_def loadCaseStudyContent_def caseStudies_get_def Let_def)
qed

text \<open>The id \<open>unknown-project\<close> on the page as loaded.\<close>

theorem open_unknown_witness:
  "js ''unknown-project'' \<notin> set (map fst caseStudies) \<and>
   js ''unknown-project'' \<notin> set object_prototype_keys \<and>
   modalContent (fst (openCaseStudy (js ''unknown-project'') initial_page)) = [] \<and>
   isModalOpen (fst (openCaseStudy (js ''unknown-project'') initial_page)) \<and>
   currentProject (fst (openCaseStudy (js ''unknown-project'') initial_page)) =
     Some (js ''unknown-project'') \<and>
   modalActive (fst (openCaseStudy (js ''unknown-project'') initial_page)) \<and>
   bodyOverflow (fst (openCaseStudy (js ''unknown-project'') initial_page)) = js ''hidden'' \<and>
   snd (openCaseStudy (js ''unknown-project'') initial_page) = None"
proof -
  have a: "js ''unknown-project'' \<notin> set (map fst caseStudies)"
    by (simp add: caseStudies_def js_def)
  have b: "js ''unknown-project'' \<notin> set object_prototype_keys"
    by (simp add: object_prototype_keys_def js_def)
  show ?thesis
    using open_unknown [OF a, of initial_page] a b
    by (simp add: initial_page_def)
qed

text \<open>
  The claim as worded fails at \<open>unknown-project\<close>: the id is not in the table, and after
  the call on the page as loaded the modal is open, \<open>currentProject\<close> holds the id and
  scroll is locked.
\<close>

theorem open_unknown_counterexample:
  "map_of caseStudies (js ''unknown-project'') = None \<and>
   isModalOpen (fst (openCaseStudy (js ''unknown-project'') initial_page)) \<and>
   currentProject (fst (openCaseStudy (js ''unknown-project'') initial_page)) \<noteq> None \<and>
   bodyOverflow (fst (openCaseStudy (js ''unknown-project'') initial_page)) = js ''hidden''"
proof -
  have "map_of caseStudies (js ''unknown-project'') = None"
    by (simp add: caseStudies_def js_def)
  then show ?thesis
    by (simp add: openCaseStudy_def loadCaseStudyContent_def caseStudies_get_def Let_def
        initial_page_def)
qed

text \<open>
  C6. For every project id, opening the modal and then closing it leaves \<open>currentProject\<close>
  empty and the rendered content empty (and the modal closed, without its \<open>active\<close>
  class, scroll unlocked). Closing is idempotent: whatever the page, open or closed,
  after \<open>closeModal\<close> the modal is closed with empty \<open>currentProject\<close> and empty content,
  a second \<open>closeModal\<close> changes nothing, and on the page as loaded it changes nothing.
\<close>

theorem open_then_close:
  "currentProject (closeModal (fst (openCaseStudy projectId p))) = None \<and>
   modalContent (closeModal (fst (openCaseStudy projectId p))) = [] \<and>
   \<not> isModalOpen (closeModal (fst (openCaseStudy projectId p))) \<and>
   \<not> modalActive (closeModal (fst (openCaseStudy projectId p))) \<and>
   bodyOverflow (closeModal (fst (openCaseStudy projectId p))) = [] \<and>
   \<not> isModalOpen (closeModal p) \<and>
   currentProject (closeModal p) = None \<and>
   modalContent (closeModal p) = [] \<and>
   closeModal (closeModal p) = closeModal p \<and>
   closeModal initial_page = initial_page"
  by (simp add: closeModal_def initial_page_def)

section \<open>Active section\<close>

lemma current_section_snoc:
  "current_section scrollY (sections @ [sec]) =
     (if in_view scrollY sec then section_id sec else current_section scrollY sections)"
  by (simp add: current_section_def)

lemma current_section_filter:
  "current_section scrollY sections =
     (if filter (in_view scrollY) sections = [] then []
      else section_id (last (filter (in_view scrollY) sections)))"
proof (induction sections rule: rev_induct)
  case Nil
  show ?case by (simp add: current_section_def)
next
  case (snoc sec sections)
  then show ?case by (simp add: current_section_snoc)
qed

lemma updateActiveNavigation_active:
  "map active (updateActiveNavigation scrollY sections navLinks) =
     map (\<lambda>link. data_section link = Some (current_section scrollY sections)) navLinks"
  by (simp add: updateActiveNavigation_def Let_def)

lemma updateActiveNavigation_data_section:
  "map data_section (updateActiveNavigation scrollY sections navLinks) =
     map data_section navLinks"
  by (simp add: updateActiveNavigation_def Let_def)

text \<open>
  C8, as amended. For every scroll offset, every list of sections and every list of nav
  links, the update keeps each link's \<open>data-section\<close> and sets the active marks anew:
  when some section's interval \<open>[offsetTop - 100, offsetTop - 100 + clientHeight)\<close>
  contains the offset, exactly the links whose \<open>data-section\<close> is the id of the last such
  section are active; when no interval contains it, exactly the links whose
  \<open>data-section\<close> is the empty string are active, so none is when every link's
  \<open>data-section\<close> is absent or non-empty.
\<close>

theorem active_section:
  "map data_section (updateActiveNavigation scrollY sections navLinks) =
     map data_section navLinks \<and>
   (filter (in_view scrollY) sections \<noteq> [] \<longrightarrow>
      map active (updateActiveNavigation scrollY sections navLinks) =
        map (\<lambda>link. data_section link =
               Some (section_id (last (filter (in_view scrollY) sections)))) navLinks) \<and>
   (filter (in_view scrollY) sections = [] \<longrightarrow>
      map active (updateActiveNavigation scrollY sections navLinks) =
        map (\<lambda>link. data_section link = Some []) navLinks) \<and>
   (filter (in_view scrollY) sections = [] \<and> Some [] \<notin> set (map data_section navLinks) \<longrightarrow>
      list_all (\<lambda>link. \<not> active link) (updateActiveNavigation scrollY sections navLinks))"
proof -
  have "list_all (\<lambda>link. \<not> active link) (updateActiveNavigation scrollY sections navLinks)"
    if "filter (in_view scrollY) sections = []" "Some [] \<notin> set (map data_section navLinks)"
    using that
    by (force simp: updateActiveNavigation_def Let_def current_section_filter list_all_iff
        image_iff)
  then show ?thesis
    by (simp add: updateActiveNavigation_active updateActiveNavigation_data_section
        current_section_filter)
qed

text \<open>
  Two overlapping sections and three links at offset 550 (the later section wins), and
  the same page at offset 0, where no interval contains the offset.
\<close>

theorem active_section_witness:
  "filter (in_view 550)
     [\<lparr>section_id = js ''about'', offsetTop = 600, clientHeight = 400\<rparr>,
      \<lparr>section_id = js ''work'', offsetTop = 650, clientHeight = 400\<rparr>] \<noteq> [] \<and>
   map active (updateActiveNavigation 550
     [\<lparr>section_id = js ''about'', offsetTop = 600, clientHeight = 400\<rparr>,
      \<lparr>section_id = js ''work'', offsetTop = 650, clientHeight = 400\<rparr>]
     [\<lparr>data_section = Some (js ''about''), active = True\<rparr>,
      \<lparr>data_section = Some (js ''work''), active = False\<rparr>,
      \<lparr>data_section = None, active = True\<rparr>]) = [False, True, False] \<and>
   filter (in_view 0)
     [\<lparr>section_id = js ''about'', offsetTop = 600, clientHeight = 400\<rparr>,
      \<lparr>section_id = js ''work'', offsetTop = 650, clientHeight = 400\<rparr>] = [] \<and>
   Some [] \<notin> set (map data_section
     [\<lparr>data_section = Some (js ''about''), active = True\<rparr>,
      \<lparr>data_section = Some (js ''work''), active = False\<rparr>,
      \<lparr>data_section = None, active = True\<rparr>]) \<and>
   map active (updateActiveNavigation 0
     [\<lparr>section_id = js ''about'', offsetTop = 600, clientHeight = 400\<rparr>,
      \<lparr>section_id = js ''work'', offsetTop = 650, clientHeight = 400\<rparr>]
     [\<lparr>data_section = Some (js ''about''), active = True\<rparr>,
      \<lparr>data_section = Some (js ''work''), active = False\<rparr>,
      \<lparr>data_section = None, active = True\<rparr>]) = [False, False, False]"
  using active_section [of 550
     "[\<lparr>section_id = js ''about'', offsetTop = 600, clientHeight = 400\<rparr>,
      \<lparr>section_id = js ''work'', offsetTop = 650, clientHeight = 400\<rparr>]"
     "[\<lparr>data_section = Some (js ''about''), active = True\<rparr>,
      \<lparr>data_section = Some (js ''work''), active = False\<rparr>,
      \<lparr>data_section = None, active = True\<rparr>]"]
    active_section [of 0
     "[\<lparr>section_id = js ''about'', offsetTop = 600, clientHeight = 400\<rparr>,
      \<lparr>section_id = js ''work'', offsetTop = 650, clientHeight = 400\<rparr>]"
     "[\<lparr>data_section = Some (js ''about''), active = True\<rparr>,
      \<lparr>data_section = Some (js ''work''), active = False\<rparr>,
      \<lparr>data_section = None, active = True\<rparr>]"]
  by (simp add: in_view_def js_def)

text \<open>
  The claim as worded fails on a page whose only section is out of view at offset 0 and
  that has a link with an empty \<open>data-section\<close>: no interval contains the offset, yet that
  link is marked active.
\<close>

theorem active_section_counterexample:
  "filter (in_view 0) [\<lparr>section_id = js ''about'', offsetTop = 600, clientHeight = 400\<rparr>] = [] \<and>
   updateActiveNavigation 0
     [\<lparr>section_id = js ''about'', offsetTop = 600, clientHeight = 400\<rparr>]
     [\<lparr>data_section = Some (js ''about''), active = False\<rparr>,
      \<lparr>data_section = Some [], active = False\<rparr>] =
     [\<lparr>data_section = Some (js ''about''), active = False\<rparr>,
      \<lparr>data_section = Some [], active = True\<rparr>]"
  by (simp add: updateActiveNavigation_def current_section_def in_view_def js_def)

section \<open>Throttle windows\<close>

declare call.simps [simp del]

lemma run_Nil: "run limit [] s = s"
  by (simp add: run_def)

lemma run_Cons: "run limit (ev # evs) s = run limit evs (step limit ev s)"
  by (simp add: run_def)

lemma run_append: "run limit (evs @ evs') s = run limit evs' (run limit evs s)"
  by (simp add: run_def)

lemma idle_throttle: "idle throttle"
  by (simp add: idle_def throttle_def)

lemma call_returns:
  "idle s \<Longrightarrow>
   call limit (App args [] Returns) s =
     (s\<lparr>applied := applied s @ [args], inThrottle := True, timers := [now s + limit]\<rparr>, None)"
  by (simp add: call.simps idle_def Let_def)

lemma call_throws:
  "idle s \<Longrightarrow>
   call limit (App args [] Throws) s = (s\<lparr>applied := applied s @ [args]\<rparr>, Some Thrown)"
  by (simp add: call.simps idle_def Let_def)

lemma call_applies:
  "idle s \<Longrightarrow> applied (fst (call limit (App args [] result) s)) = applied s @ [args]"
  by (cases result) (simp_all add: call_returns call_throws)

lemma call_suppressed: "inThrottle s \<Longrightarrow> call limit c s = (s, None)"
  by (cases c) (simp add: call.simps)

lemma elapse_suppressed:
  "inThrottle s \<Longrightarrow> timers s = [e] \<Longrightarrow> now s + ms < e \<Longrightarrow>
   elapse ms s = s\<lparr>now := now s + ms\<rparr>"
  by (cases s) (simp add: elapse_def Let_def)

lemma elapse_release:
  "timers s = [e] \<Longrightarrow> e \<le> now s + ms \<Longrightarrow>
   elapse ms s = s\<lparr>now := now s + ms, timers := [], inThrottle := False\<rparr>"
  by (cases s) (simp add: elapse_def Let_def)

text \<open>
  While the timer of the open window has not expired, calls and waiting change nothing
  but the clock.
\<close>

lemma run_suppressed:
  "inThrottle s \<Longrightarrow> timers s = [e] \<Longrightarrow> calls_only evs \<or> now s + waited evs < e \<Longrightarrow>
   run limit evs s = s\<lparr>now := now s + waited evs\<rparr>"
proof (induction evs arbitrary: s)
  case Nil
  then show ?case by (simp add: run_Nil)
next
  case (Cons ev evs)
  show ?case
  proof (cases ev)
    case (Call c)
    with Cons show ?thesis by (simp add: run_Cons call_suppressed)
  next
    case (Wait ms)
    with Cons.prems have lt: "now s + (ms + waited evs) < e" by simp
    then have "now s + ms < e" by simp
    with Cons.prems have el: "elapse ms s = s\<lparr>now := now s + ms\<rparr>"
      by (intro elapse_suppressed)
    have "run limit evs (s\<lparr>now := now s + ms\<rparr>) =
        s\<lparr>now := now s + ms\<rparr>\<lparr>now := now (s\<lparr>now := now s + ms\<rparr>) + waited evs\<rparr>"
      using Cons.prems lt by (intro Cons.IH) simp_all
    with Wait el show ?thesis by (simp add: run_Cons add.assoc)
  qed
qed

text \<open>The state during a window, when it has ended, and after the next call.\<close>

lemma run_during:
  assumes "idle t" "calls_only es \<or> waited es < l"
  shows "run l es (fst (call l (App x [] Returns) t)) =
      t\<lparr>applied := applied t @ [x], inThrottle := True, timers := [now t + l],
        now := now t + waited es\<rparr>"
proof -
  let ?t = "t\<lparr>applied := applied t @ [x], inThrottle := True, timers := [now t + l]\<rparr>"
  have "run l es ?t = ?t\<lparr>now := now ?t + waited es\<rparr>"
    using assms by (intro run_suppressed [where e = "now t + l"]) simp_all
  with assms show ?thesis by (simp add: call_returns)
qed

lemma run_after:
  assumes "idle t" "calls_only es \<or> waited es < l" "l \<le> waited es + m"
  shows "run l (es @ [Wait m]) (fst (call l (App x [] Returns) t)) =
      t\<lparr>applied := applied t @ [x], inThrottle := False, timers := [],
        now := now t + waited es + m\<rparr>"
proof -
  let ?t = "t\<lparr>applied := applied t @ [x], inThrottle := True, timers := [now t + l],
      now := now t + waited es\<rparr>"
  have "elapse m ?t = ?t\<lparr>now := now ?t + m, timers := [], inThrottle := False\<rparr>"
    using assms by (intro elapse_release [where e = "now t + l"]) simp_all
  with assms show ?thesis
    by (simp add: run_append run_Cons run_Nil run_during)
qed

lemma run_again:
  assumes "idle t" "calls_only es \<or> waited es < l" "l \<le> waited es + m"
  shows "run l (es @ [Wait m, Call c]) (fst (call l (App x [] Returns) t)) =
      fst (call l c (t\<lparr>applied := applied t @ [x], inThrottle := False, timers := [],
        now := now t + waited es + m\<rparr>))"
proof -
  have "run l (es @ [Wait m, Call c]) (fst (call l (App x [] Returns) t)) =
      fst (call l c (run l (es @ [Wait m]) (fst (call l (App x [] Returns) t))))"
    using run_append [of l "es @ [Wait m]" "[Call c]" "fst (call l (App x [] Returns) t)"]
    by (simp add: run_Cons run_Nil)
  also have "\<dots> = fst (call l c (t\<lparr>applied := applied t @ [x], inThrottle := False,
      timers := [], now := now t + waited es + m\<rparr>))"
    using assms by (simp only: run_after)
  finally show ?thesis .
qed

text \<open>
  C7, as amended. Let no window be open (as on creation, or after an earlier window has
  ended), and let \<open>func\<close> make no call of the throttled function itself. A call applies
  \<open>func\<close> at once. If that application returns, then as long as no time or less than
  \<open>limit\<close> ms have passed since, every further call is dropped: \<open>func\<close> has been applied
  to nothing more, whatever calls and pauses came. Once \<open>limit\<close> ms or more have passed,
  no window is open any more and nothing was queued; the next call applies \<open>func\<close>
  again and, if that application returns, opens a new window of \<open>limit\<close> ms. If the
  application throws, the exception goes to the caller and no window is opened: nothing
  but the record of the application has changed. In particular, with a limit of 100 ms
  and such a \<open>func\<close> that returns, five calls spread over at most 50 ms apply \<open>func\<close>
  once, to the arguments of the first, and a sixth call 150 ms or more after the first
  applies it a second time.
\<close>

theorem throttle_window:
  "(idle s \<longrightarrow> applied (fst (call limit (App a [] result) s)) = applied s @ [a]) \<and>
   (idle s \<and> (calls_only evs \<or> waited evs < limit) \<longrightarrow>
      applied (run limit evs (fst (call limit (App a [] Returns) s))) = applied s @ [a]) \<and>
   (idle s \<and> (calls_only evs \<or> waited evs < limit) \<and> limit \<le> waited evs + ms \<longrightarrow>
      idle (run limit (evs @ [Wait ms]) (fst (call limit (App a [] Returns) s))) \<and>
      applied (run limit (evs @ [Wait ms]) (fst (call limit (App a [] Returns) s))) =
        applied s @ [a] \<and>
      applied (run limit (evs @ [Wait ms, Call (App b [] result)])
          (fst (call limit (App a [] Returns) s))) = applied s @ [a, b] \<and>
      inThrottle (run limit (evs @ [Wait ms, Call (App b [] Returns)])
          (fst (call limit (App a [] Returns) s))) \<and>
      timers (run limit (evs @ [Wait ms, Call (App b [] Returns)])
          (fst (call limit (App a [] Returns) s))) =
        [now (run limit (evs @ [Wait ms, Call (App b [] Returns)])
          (fst (call limit (App a [] Returns) s))) + limit]) \<and>
   (idle s \<longrightarrow>
      call limit (App a [] Throws) s = (s\<lparr>applied := applied s @ [a]\<rparr>, Some Thrown) \<and>
      idle (fst (call limit (App a [] Throws) s))) \<and>
   (d1 + d2 + d3 + d4 \<le> 50 \<and> 150 \<le> d1 + d2 + d3 + d4 + d5 \<longrightarrow>
      applied (run 100
        [Call (App 1 [] Returns), Wait d1, Call (App 2 [] Returns), Wait d2,
         Call (App 3 [] Returns), Wait d3, Call (App 4 [] Returns), Wait d4,
         Call (App 5 [] Returns)]
        throttle) = [1::nat] \<and>
      applied (run 100
        [Call (App 1 [] Returns), Wait d1, Call (App 2 [] Returns), Wait d2,
         Call (App 3 [] Returns), Wait d3, Call (App 4 [] Returns), Wait d4,
         Call (App 5 [] Returns), Wait d5, Call (App 6 [] Returns)]
        throttle) = [1::nat, 6])"
proof -
  have scenario:
    "applied (run 100
        [Call (App 1 [] Returns), Wait d1, Call (App 2 [] Returns), Wait d2,
         Call (App 3 [] Returns), Wait d3, Call (App 4 [] Returns), Wait d4,
         Call (App 5 [] Returns)]
        throttle) = [1::nat] \<and>
     applied (run 100
        [Call (App 1 [] Returns), Wait d1, Call (App 2 [] Returns), Wait d2,
         Call (App 3 [] Returns), Wait d3, Call (App 4 [] Returns), Wait d4,
         Call (App 5 [] Returns), Wait d5, Call (App 6 [] Returns)]
        throttle) = [1::nat, 6]"
    if d: "d1 + d2 + d3 + d4 \<le> 50" "150 \<le> d1 + d2 + d3 + d4 + d5"
  proof -
    let ?es = "[Wait d1, Call (App 2 [] Returns), Wait d2, Call (App 3 [] Returns), Wait d3,
      Call (App 4 [] Returns), Wait d4, Call (App (5::nat) [] Returns)]"
    let ?t = "throttle :: nat throttled"
    have w: "calls_only ?es \<or> waited ?es < 100" "100 \<le> waited ?es + d5"
      using d by simp_all
    have "run 100 ?es (fst (call 100 (App 1 [] Returns) ?t)) =
        ?t\<lparr>applied := applied ?t @ [1], inThrottle := True,
          timers := [now ?t + 100], now := now ?t + waited ?es\<rparr>"
      by (rule run_during [OF idle_throttle w(1)])
    moreover have "run 100 (?es @ [Wait d5, Call (App 6 [] Returns)])
          (fst (call 100 (App 1 [] Returns) ?t)) =
        fst (call 100 (App 6 [] Returns) (?t\<lparr>applied := applied ?t @ [1],
          inThrottle := False, timers := [], now := now ?t + waited ?es + d5\<rparr>))"
      by (rule run_again [OF idle_throttle w])
    moreover have "applied (fst (call 100 (App 6 [] Returns) (?t\<lparr>applied := applied ?t @ [1],
          inThrottle := False, timers := [], now := now ?t + waited ?es + d5\<rparr>))) = [1, 6]"
      by (simp add: call_applies idle_def throttle_def)
    ultimately show ?thesis
      by (simp add: run_Cons throttle_def)
  qed
  have first: "idle s \<longrightarrow> applied (fst (call limit (App a [] result) s)) = applied s @ [a]"
    by (simp add: call_applies)
  have during: "idle s \<and> (calls_only evs \<or> waited evs < limit) \<longrightarrow>
      applied (run limit evs (fst (call limit (App a [] Returns) s))) = applied s @ [a]"
    by (simp add: run_during)
  have after: "idle s \<and> (calls_only evs \<or> waited evs < limit) \<and> limit \<le> waited evs + ms \<longrightarrow>
      idle (run limit (evs @ [Wait ms]) (fst (call limit (App a [] Returns) s))) \<and>
      applied (run limit (evs @ [Wait ms]) (fst (call limit (App a [] Returns) s))) =
        applied s @ [a] \<and>
      applied (run limit (evs @ [Wait ms, Call (App b [] result)])
          (fst (call limit (App a [] Returns) s))) = applied s @ [a, b] \<and>
      inThrottle (run limit (evs @ [Wait ms, Call (App b [] Returns)])
          (fst (call limit (App a [] Returns) s))) \<and>
      timers (run limit (evs @ [Wait ms, Call (App b [] Returns)])
          (fst (call limit (App a [] Returns) s))) =
        [now (run limit (evs @ [Wait ms, Call (App b [] Returns)])
          (fst (call limit (App a [] Returns) s))) + limit]"
  proof
    assume h: "idle s \<and> (calls_only evs \<or> waited evs < limit) \<and> limit \<le> waited evs + ms"
    let ?r = "s\<lparr>applied := applied s @ [a], inThrottle := False, timers := [],
          now := now s + waited evs + ms\<rparr>"
    have r: "idle ?r" by (simp add: idle_def)
    from h have 1: "run limit (evs @ [Wait ms]) (fst (call limit (App a [] Returns) s)) = ?r"
      by (intro run_after) simp_all
    from h have 2: "run limit (evs @ [Wait ms, Call c]) (fst (call limit (App a [] Returns) s)) =
        fst (call limit c ?r)" for c
      by (intro run_again) simp_all
    show "idle (run limit (evs @ [Wait ms]) (fst (call limit (App a [] Returns) s))) \<and>
      applied (run limit (evs @ [Wait ms]) (fst (call limit (App a [] Returns) s))) =
        applied s @ [a] \<and>
      applied (run limit (evs @ [Wait ms, Call (App b [] result)])
          (fst (call limit (App a [] Returns) s))) = applied s @ [a, b] \<and>
      inThrottle (run limit (evs @ [Wait ms, Call (App b [] Returns)])
          (fst (call limit (App a [] Returns) s))) \<and>
      timers (run limit (evs @ [Wait ms, Call (App b [] Returns)])
          (fst (call limit (App a [] Returns) s))) =
        [now (run limit (evs @ [Wait ms, Call (App b [] Returns)])
          (fst (call limit (App a [] Returns) s))) + limit]"
      unfolding 1 2 using r by (simp add: call_applies call_returns)
  qed
  have throws: "idle s \<longrightarrow>
      call limit (App a [] Throws) s = (s\<lparr>applied := applied s @ [a]\<rparr>, Some Thrown) \<and>
      idle (fst (call limit (App a [] Throws) s))"
    by (simp add: call_throws) (simp add: idle_def)
  from first during after throws scenario show ?thesis
    by blast
qed

text \<open>
  A throttled function with a limit of 100 ms, called at 0, 10, 20, 30 and 40 ms and
  again at 150 ms.
\<close>

theorem throttle_window_witness:
  "idle (throttle :: nat throttled) \<and>
   applied (fst (call 100 (App (1::nat) [] Returns) throttle)) = [1] \<and>
   (calls_only [Wait 10, Call (App 2 [] Returns), Wait 10, Call (App 3 [] Returns), Wait 10,
       Call (App 4 [] Returns), Wait 10, Call (App (5::nat) [] Returns)] \<or>
    waited [Wait 10, Call (App 2 [] Returns), Wait 10, Call (App 3 [] Returns), Wait 10,
       Call (App 4 [] Returns), Wait 10, Call (App (5::nat) [] Returns)] < 100) \<and>
   applied (run 100
     [Wait 10, Call (App 2 [] Returns), Wait 10, Call (App 3 [] Returns), Wait 10,
      Call (App 4 [] Returns), Wait 10, Call (App 5 [] Returns)]
     (fst (call 100 (App (1::nat) [] Returns) throttle))) = [1] \<and>
   100 \<le> waited [Wait 10, Call (App 2 [] Returns), Wait 10, Call (App 3 [] Returns), Wait 10,
       Call (App 4 [] Returns), Wait 10, Call (App (5::nat) [] Returns)] + 110 \<and>
   idle (run 100
     ([Wait 10, Call (App 2 [] Returns), Wait 10, Call (App 3 [] Returns), Wait 10,
       Call (App 4 [] Returns), Wait 10, Call (App 5 [] Returns)] @ [Wait 110])
     (fst (call 100 (App (1::nat) [] Returns) throttle))) \<and>
   applied (run 100
     ([Wait 10, Call (App 2 [] Returns), Wait 10, Call (App 3 [] Returns), Wait 10,
       Call (App 4 [] Returns), Wait 10, Call (App 5 [] Returns)] @
      [Wait 110, Call (App 6 [] Returns)])
     (fst (call 100 (App (1::nat) [] Returns) throttle))) = [1, 6] \<and>
   inThrottle (run 100
     ([Wait 10, Call (App 2 [] Returns), Wait 10, Call (App 3 [] Returns), Wait 10,
       Call (App 4 [] Returns), Wait 10, Call (App 5 [] Returns)] @
      [Wait 110, Call (App 6 [] Returns)])
     (fst (call 100 (App (1::nat) [] Returns) throttle))) \<and>
   call 100 (App (1::nat) [] Throws) throttle =
     (throttle\<lparr>applied := [1]\<rparr>, Some Thrown) \<and>
   (10::nat) + 10 + 10 + 10 \<le> 50 \<and> (150::nat) \<le> 10 + 10 + 10 + 10 + 110 \<and>
   applied (run 100
     [Call (App 1 [] Returns), Wait 10, Call (App 2 [] Returns), Wait 10,
      Call (App 3 [] Returns), Wait 10, Call (App 4 [] Returns), Wait 10,
      Call (App 5 [] Returns), Wait 110, Call (App 6 [] Returns)]
     throttle) = [1::nat, 6]"
proof -
  have i: "idle (throttle :: nat throttled)" by (rule idle_throttle)
  have e: "applied (throttle :: nat throttled) = []" by (simp add: throttle_def)
  have w: "waited [Wait 10, Call (App 2 [] Returns), Wait 10, Call (App 3 [] Returns), Wait 10,
       Call (App 4 [] Returns), Wait 10, Call (App (5::nat) [] Returns)] = 40"
    by simp
  show ?thesis
    using throttle_window [of "throttle :: nat throttled" 100 1 Returns
        "[Wait 10, Call (App 2 [] Returns), Wait 10, Call (App 3 [] Returns), Wait 10,
          Call (App 4 [] Returns), Wait 10, Call (App 5 [] Returns)]" 110 6
        10 10 10 10 110]
    by (simp only: i e w) simp
qed

text \<open>
  The claim as worded, for every function, fails twice with a limit of 100 ms and no
  time passing. For a \<open>func\<close> that throws, the flag is never set and a second call made
  at once is not dropped. For a \<open>func\<close> that returns but, given 1, calls the throttled
  function with 2 while it runs, that nested call finds the flag still down and is not
  dropped either.
\<close>

theorem throttle_window_counterexample:
  "applied (run 100 [Call (App (1::nat) [] Throws), Call (App 2 [] Throws)] throttle) = [1, 2] \<and>
   applied (fst (call 100 (App (1::nat) [App 2 [] Returns] Returns) throttle)) = [1, 2] \<and>
   snd (call 100 (App (1::nat) [App 2 [] Returns] Returns) throttle) = None"
  by (simp add: run_def call.simps throttle_def)

section \<open>Easing\<close>

text \<open>
  C10. For every start position \<open>b\<close>, distance \<open>c\<close> and duration \<open>d > 0\<close>, the easing
  function returns \<open>b\<close> at time \<open>0\<close> and \<open>b + c\<close> at time \<open>d\<close>, over the rationals.
\<close>

theorem easeInOutQuad_endpoints:
  "0 < d \<Longrightarrow> easeInOutQuad 0 b c d = b \<and> easeInOutQuad d b c d = b + c"
  by (simp add: easeInOutQuad_def Let_def)

text \<open>The 800 ms scroll of the fallback, from offset 120 up by 45.\<close>

theorem easeInOutQuad_endpoints_witness:
  "(0::rat) < 800 \<and> easeInOutQuad 0 120 (-45) 800 = 120 \<and>
   easeInOutQuad 800 120 (-45) 800 = 120 + (-45)"
  using easeInOutQuad_endpoints [of 800 120 "-45"] by simp

end
